theory Spec2Isabelle
  imports Complex_Main "HOL-Library.Multiset" "HOL-Library.Sublist" "HOL-Library.Log_Nat"
begin

section \<open>Element snapshots and diff entries\<close>

text \<open>
  An element snapshot is the object pushed by the extraction script of
  \<^verbatim>\<open>compare_images_logic\<close> (main.py) and read by
  \<^verbatim>\<open>compare_dom_elements\<close> (utils/dom_diff.py). The differ reads
  \<^verbatim>\<open>tag\<close>, \<^verbatim>\<open>text\<close> and \<^verbatim>\<open>rect\<close> by subscript and
  \<^verbatim>\<open>id\<close> and \<^verbatim>\<open>styles\<close> through \<^verbatim>\<open>.get\<close>: an absent
  \<^verbatim>\<open>id\<close> is \<open>None\<close>, an absent \<^verbatim>\<open>styles\<close> is the empty map
  (the default of \<^verbatim>\<open>.get('styles', {})\<close>).
\<close>

text \<open>
  The rectangle holds JavaScript numbers (binary64); each is kept as the rational it
  denotes.
\<close>

record rect =
  rect_x :: rat
  rect_y :: rat
  rect_width :: rat
  rect_height :: rat

record element =
  tag :: string
  el_id :: "string option"
  classes :: "string list"
  el_text :: string
  rect :: rect
  styles :: "string \<rightharpoonup> string"

record style_delta =
  old :: "string option"
  new :: "string option"

text \<open>
  A diff entry is a dictionary with a \<^verbatim>\<open>type\<close> key; \<^verbatim>\<open>diffs\<close> is a
  dictionary filled in the order of \<^verbatim>\<open>target_styles\<close>, kept here as an
  association list in insertion order.
\<close>

datatype diff_entry =
    StyleChange rect "(string \<times> style_delta) list" string string
  | Added rect string string
  | Removed rect string string

text \<open>The exceptions that the modelled code can raise.\<close>

datatype py_error = KeyError | IndexError | ZeroDivisionError | OSError | PlaywrightError

section \<open>The DOM differ (utils/dom\_diff.py)\<close>

definition target_styles :: "string list" where
  "target_styles =
     [''color'', ''background-color'', ''font-family'', ''font-size'', ''font-weight'', ''text-align'']"

text \<open>Truth value of \<^verbatim>\<open>comp_el.get('id')\<close>: absent and empty are false.\<close>

fun truthy :: "string option \<Rightarrow> bool" where
  "truthy None = False"
| "truthy (Some s) = (s \<noteq> [])"

text \<open>
  \<^verbatim>\<open>unmatched_base\<close> is a dictionary from the original index to the element;
  its iteration order is insertion order, which \<^verbatim>\<open>pop\<close> keeps for the rest.
\<close>

type_synonym working = "(nat \<times> element) list"

text \<open>Lines 29 to 32: the first item with the same id and the same tag.\<close>

fun id_search :: "working \<Rightarrow> element \<Rightarrow> nat option" where
  "id_search [] comp_el = None"
| "id_search ((i, base_el) # items) comp_el =
     (if el_id base_el = el_id comp_el \<and> tag base_el = tag comp_el then Some i
      else id_search items comp_el)"

text \<open>Lines 36 to 39: the first item with the same tag and the same text.\<close>

fun text_search :: "working \<Rightarrow> element \<Rightarrow> nat option" where
  "text_search [] comp_el = None"
| "text_search ((i, base_el) # items) comp_el =
     (if tag base_el = tag comp_el \<and> el_text base_el = el_text comp_el then Some i
      else text_search items comp_el)"

text \<open>Lines 25 to 39; \<open>None\<close> stands for the sentinel \<^verbatim>\<open>-1\<close>.\<close>

definition match_index :: "working \<Rightarrow> element \<Rightarrow> nat option" where
  "match_index unmatched_base comp_el =
     (let m = (if truthy (el_id comp_el) then id_search unmatched_base comp_el else None)
      in if m = None then text_search unmatched_base comp_el else m)"

text \<open>\<^verbatim>\<open>dict.pop(key)\<close>: raises \<^verbatim>\<open>KeyError\<close> on an absent key.\<close>

definition pop :: "(nat \<times> 'a) list \<Rightarrow> nat \<Rightarrow> py_error + ('a \<times> (nat \<times> 'a) list)" where
  "pop d k = (case map_of d k of
                None \<Rightarrow> Inl KeyError
              | Some v \<Rightarrow> Inr (v, filter (\<lambda>p. fst p \<noteq> k) d))"

text \<open>Lines 51 to 61: the properties of \<^verbatim>\<open>target_styles\<close> whose values differ.\<close>

fun style_loop ::
  "(string \<rightharpoonup> string) \<Rightarrow> (string \<rightharpoonup> string) \<Rightarrow> string list \<Rightarrow>
   (string \<times> style_delta) list \<Rightarrow> (string \<times> style_delta) list" where
  "style_loop base_styles comp_styles [] style_diffs = style_diffs"
| "style_loop base_styles comp_styles (prop # props) style_diffs =
     (let val1 = base_styles prop; val2 = comp_styles prop
      in style_loop base_styles comp_styles props
           (if val1 \<noteq> val2 then style_diffs @ [(prop, \<lparr>old = val1, new = val2\<rparr>)]
            else style_diffs))"

text \<open>Lines 45 to 70: what a matched pair appends to \<^verbatim>\<open>diffs\<close>.\<close>

definition style_entry :: "element \<Rightarrow> element \<Rightarrow> diff_entry list" where
  "style_entry base_el comp_el =
     (let style_diffs = style_loop (styles base_el) (styles comp_el) target_styles []
      in if style_diffs \<noteq> []
         then [StyleChange (rect comp_el) style_diffs (tag comp_el) (el_text comp_el)]
         else [])"

text \<open>
  One pass of the loop of line 24: the working set after the pass and the
  entries the pass appends to \<^verbatim>\<open>diffs\<close> (written \<open>out\<close> below).
\<close>

definition compare_step :: "working \<Rightarrow> element \<Rightarrow> py_error + (working \<times> diff_entry list)" where
  "compare_step unmatched_base comp_el =
     (case match_index unmatched_base comp_el of
        Some i \<Rightarrow>
          (case pop unmatched_base i of
             Inl e \<Rightarrow> Inl e
           | Inr (base_el, rest) \<Rightarrow> Inr (rest, style_entry base_el comp_el))
      | None \<Rightarrow> Inr (unmatched_base, [Added (rect comp_el) (tag comp_el) (el_text comp_el)]))"

fun compare_loop ::
  "working \<Rightarrow> element list \<Rightarrow> diff_entry list \<Rightarrow> py_error + (working \<times> diff_entry list)" where
  "compare_loop unmatched_base [] out = Inr (unmatched_base, out)"
| "compare_loop unmatched_base (comp_el # others) out =
     (case compare_step unmatched_base comp_el of
        Inl e \<Rightarrow> Inl e
      | Inr (rest, entries) \<Rightarrow> compare_loop rest others (out @ entries))"

definition removed_entry :: "nat \<times> element \<Rightarrow> diff_entry" where
  "removed_entry p = Removed (rect (snd p)) (tag (snd p)) (el_text (snd p))"

definition compare_dom_elements :: "element list \<Rightarrow> element list \<Rightarrow> py_error + diff_entry list" where
  "compare_dom_elements base_elements compare_elements =
     (case compare_loop (enumerate 0 base_elements) compare_elements [] of
        Inl e \<Rightarrow> Inl e
      | Inr (unmatched_base, out) \<Rightarrow> Inr (out @ map removed_entry unmatched_base))"


subsection \<open>Notions used to state the properties of the differ\<close>

text \<open>The two match criteria, as relations between a compare element and a base element.\<close>

definition same_id_tag :: "element \<Rightarrow> element \<Rightarrow> bool" where
  "same_id_tag comp_el base_el \<longleftrightarrow> el_id base_el = el_id comp_el \<and> tag base_el = tag comp_el"

definition same_tag_text :: "element \<Rightarrow> element \<Rightarrow> bool" where
  "same_tag_text comp_el base_el \<longleftrightarrow>
     tag base_el = tag comp_el \<and> el_text base_el = el_text comp_el"

text \<open>Position \<open>n\<close> of the working set holds the first element that satisfies \<open>P\<close>.\<close>

definition first_at :: "(element \<Rightarrow> bool) \<Rightarrow> working \<Rightarrow> nat \<Rightarrow> bool" where
  "first_at P ub n \<longleftrightarrow> n < length ub \<and> P (snd (ub ! n)) \<and> (\<forall>j<n. \<not> P (snd (ub ! j)))"

text \<open>The items of a working set whose index is not among the matches \<open>ms\<close>.\<close>

definition remaining :: "working \<Rightarrow> nat option list \<Rightarrow> working" where
  "remaining ub ms = filter (\<lambda>p. Some (fst p) \<notin> set ms) ub"

text \<open>
  The value of \<^verbatim>\<open>match_index\<close> in each pass of the loop of line 24, in the
  order of the compare elements: a record of who was matched with whom.
\<close>

fun match_trace :: "working \<Rightarrow> element list \<Rightarrow> nat option list" where
  "match_trace ub [] = []"
| "match_trace ub (c # cs) =
     match_index ub c #
     (case compare_step ub c of Inl e \<Rightarrow> [] | Inr (rest, entries) \<Rightarrow> match_trace rest cs)"

text \<open>
  What one compare element contributes to the result, given its match: an
  \<^verbatim>\<open>added\<close> entry without a match, the style comparison with the matched base
  element otherwise.
\<close>

definition entry_for :: "element list \<Rightarrow> element \<Rightarrow> nat option \<Rightarrow> diff_entry list" where
  "entry_for bs c m =
     (case m of
        None \<Rightarrow> [Added (rect c) (tag c) (el_text c)]
      | Some i \<Rightarrow> style_entry (bs ! i) c)"

text \<open>
  The invariant of \<^verbatim>\<open>unmatched_base\<close>: a dictionary (no key twice) whose
  items are items of \<^verbatim>\<open>enumerate(base_elements)\<close>.
\<close>

definition wf_working :: "element list \<Rightarrow> working \<Rightarrow> bool" where
  "wf_working bs ub \<longleftrightarrow> distinct (map fst ub) \<and> set ub \<subseteq> set (enumerate 0 bs)"





subsection \<open>Sample snapshots\<close>

definition h1_black :: element where
  "h1_black = \<lparr>tag = ''H1'', el_id = Some [], classes = [], el_text = ''Hello'',
     rect = \<lparr>rect_x = 0, rect_y = 0, rect_width = 100, rect_height = 20\<rparr>,
     styles = [''color'' \<mapsto> ''rgb(0,0,0)'', ''font-size'' \<mapsto> ''32px'']\<rparr>"

definition h1_red :: element where
  "h1_red = h1_black\<lparr>styles := [''color'' \<mapsto> ''rgb(255,0,0)'', ''font-size'' \<mapsto> ''32px'']\<rparr>"

definition p_red :: element where
  "p_red = \<lparr>tag = ''P'', el_id = Some [], classes = [], el_text = ''Item'',
     rect = \<lparr>rect_x = 0, rect_y = 0, rect_width = 50, rect_height = 10\<rparr>,
     styles = [''color'' \<mapsto> ''red'']\<rparr>"

definition p_blue :: element where
  "p_blue = \<lparr>tag = ''P'', el_id = Some [], classes = [], el_text = ''Item'',
     rect = \<lparr>rect_x = 0, rect_y = 20, rect_width = 50, rect_height = 10\<rparr>,
     styles = [''color'' \<mapsto> ''blue'']\<rparr>"

definition buy_button :: element where
  "buy_button = \<lparr>tag = ''BUTTON'', el_id = Some ''buy'', classes = [''cta''], el_text = ''Buy'',
     rect = \<lparr>rect_x = 10, rect_y = 40, rect_width = 80, rect_height = 24\<rparr>,
     styles = [''color'' \<mapsto> ''white'']\<rparr>"

definition buy_now_button :: element where
  "buy_now_button = buy_button\<lparr>el_text := ''Buy now''\<rparr>"

definition li_one :: element where
  "li_one = \<lparr>tag = ''LI'', el_id = Some ''item'', classes = [], el_text = ''One'',
     rect = \<lparr>rect_x = 0, rect_y = 0, rect_width = 60, rect_height = 12\<rparr>,
     styles = [''color'' \<mapsto> ''black'']\<rparr>"

definition li_plain :: element where
  "li_plain = li_one\<lparr>el_id := Some []\<rparr>"

definition li_two :: element where
  "li_two = li_one\<lparr>el_text := ''Two''\<rparr>"


section \<open>Python floats\<close>

text \<open>
  A Python \<^verbatim>\<open>float\<close> is an IEEE 754 binary64 number. A finite float is
  kept as the rational it denotes, and every arithmetic operation is the exact
  operation followed by \<open>round_binary64\<close>: round to nearest, ties to even, with
  53 significant bits. Overflow and subnormal numbers are left out: the pixel differ
  only forms quotients between \<open>0\<close> and \<open>1\<close> of integers below \<open>2 ^ 1022\<close> and
  products below \<open>256\<close>.
\<close>

definition round_half_even :: "rat \<Rightarrow> int" where
  "round_half_even x =
     (let f = \<lfloor>x\<rfloor>; d = x - of_int f
      in if d < 1 / 2 then f else if 1 / 2 < d then f + 1 else if even f then f else f + 1)"

text \<open>The exponent \<open>e\<close> with \<open>2 ^ e \<le> x < 2 ^ (e + 1)\<close>, for \<open>x > 0\<close>.\<close>

definition binary64_exponent :: "rat \<Rightarrow> int" where
  "binary64_exponent x =
     (let (p, q) = quotient_of x; e = bitlen p - bitlen q
      in if 2 powi e \<le> x then e else e - 1)"

definition round_binary64 :: "rat \<Rightarrow> rat" where
  "round_binary64 x =
     (if x = 0 then 0
      else let ulp = 2 powi (binary64_exponent \<bar>x\<bar> - 52)
           in sgn x * of_int (round_half_even (\<bar>x\<bar> / ulp)) * ulp)"

text \<open>Conversion of an \<^verbatim>\<open>int\<close> operand, true division \<^verbatim>\<open>a / b\<close> of two
  \<^verbatim>\<open>int\<close>s, the product of two floats, and \<^verbatim>\<open>int(x)\<close> (truncation).\<close>

definition float_of_int :: "int \<Rightarrow> rat" where
  "float_of_int n = round_binary64 (of_int n)"

definition py_truediv :: "int \<Rightarrow> int \<Rightarrow> py_error + rat" where
  "py_truediv a b =
     (if b = 0 then Inl ZeroDivisionError else Inr (round_binary64 (of_int a / of_int b)))"

definition float_mul :: "rat \<Rightarrow> rat \<Rightarrow> rat" where
  "float_mul x y = round_binary64 (x * y)"

definition py_int :: "rat \<Rightarrow> int" where
  "py_int x = (if 0 \<le> x then \<lfloor>x\<rfloor> else \<lceil>x\<rceil>)"

text \<open>The literal \<^verbatim>\<open>0.3\<close>.\<close>

definition float_0_3 :: rat where
  "float_0_3 = round_binary64 (3 / 10)"

section \<open>The pixel differ (process\_image\_diff, main.py)\<close>

text \<open>
  An image after \<^verbatim>\<open>convert("RGB")\<close>: its size and the pixel access object of
  \<^verbatim>\<open>load()\<close>, which is defined for \<open>x < width\<close> and \<open>y < height\<close> and raises
  \<^verbatim>\<open>IndexError\<close> elsewhere. The channels are Python integers.
\<close>

type_synonym rgb = "int \<times> int \<times> int"

record image =
  width :: nat
  height :: nat
  pixels :: "nat \<times> nat \<Rightarrow> rgb"

definition getpixel :: "image \<Rightarrow> nat \<times> nat \<Rightarrow> py_error + rgb" where
  "getpixel img xy =
     (if fst xy < width img \<and> snd xy < height img then Inr (pixels img xy) else Inl IndexError)"

text \<open>
  \<^verbatim>\<open>diff_pixels[x, y] = v\<close>. The loop writes inside the image it was sized for.
\<close>

definition putpixel :: "image \<Rightarrow> nat \<times> nat \<Rightarrow> rgb \<Rightarrow> image" where
  "putpixel img xy v = img\<lparr>pixels := (pixels img)(xy := v)\<rparr>"

text \<open>\<^verbatim>\<open>Image.new("RGB", (width, height))\<close>: a black image.\<close>

definition new_image :: "nat \<times> nat \<Rightarrow> image" where
  "new_image wh = \<lparr>width = fst wh, height = snd wh, pixels = (\<lambda>xy. (0, 0, 0))\<rparr>"

text \<open>Line 3125: \<^verbatim>\<open>int(r1*0.3)\<close>.\<close>

definition fade :: "int \<Rightarrow> int" where
  "fade r = py_int (float_mul (float_of_int r) float_0_3)"

text \<open>Lines 3116 to 3125: the body of the inner loop, on the diff image and the counter.\<close>

definition pixel_body :: "image \<Rightarrow> image \<Rightarrow> image \<times> int \<Rightarrow> nat \<times> nat \<Rightarrow> py_error + image \<times> int" where
  "pixel_body img1 img2 st xy =
     (case getpixel img1 xy of
        Inl e \<Rightarrow> Inl e
      | Inr (r1, g1, b1) \<Rightarrow>
          (case getpixel img2 xy of
             Inl e \<Rightarrow> Inl e
           | Inr (r2, g2, b2) \<Rightarrow>
               (let diff = \<bar>r1 - r2\<bar> + \<bar>g1 - g2\<bar> + \<bar>b1 - b2\<bar>
                in if 15 < diff
                   then Inr (putpixel (fst st) xy (255, 0, 0), snd st + 1)
                   else Inr (putpixel (fst st) xy (fade r1, fade g1, fade b1), snd st))))"

fun pixel_loop ::
  "image \<Rightarrow> image \<Rightarrow> (nat \<times> nat) list \<Rightarrow> image \<times> int \<Rightarrow> py_error + image \<times> int" where
  "pixel_loop img1 img2 [] st = Inr st"
| "pixel_loop img1 img2 (xy # rest) st =
     (case pixel_body img1 img2 st xy of
        Inl e \<Rightarrow> Inl e
      | Inr st' \<Rightarrow> pixel_loop img1 img2 rest st')"

text \<open>
  The coordinates in the order of
  \<^verbatim>\<open>for y in range(height): for x in range(width)\<close>.
\<close>

definition scan_order :: "nat \<Rightarrow> nat \<Rightarrow> (nat \<times> nat) list" where
  "scan_order w h = concat (map (\<lambda>y. map (\<lambda>x. (x, y)) [0..<w]) [0..<h])"

text \<open>Lines 3099 and 3100.\<close>

definition target_size :: "image \<Rightarrow> image \<Rightarrow> nat \<times> nat" where
  "target_size img1 img2 = (min (width img1) (width img2), min (height img1) (height img2))"

text \<open>
  Lines 3099 to 3125. \<^verbatim>\<open>Image.resize\<close> belongs to the imaging library and is a
  parameter. The result is the diff image, \<^verbatim>\<open>diff_count\<close> and
  \<^verbatim>\<open>total_pixels\<close>.
\<close>

definition render_diff ::
  "(image \<Rightarrow> nat \<times> nat \<Rightarrow> image) \<Rightarrow> image \<Rightarrow> image \<Rightarrow> py_error + image \<times> int \<times> int" where
  "render_diff resize img1 img2 =
     (let wh = target_size img1 img2;
          img1' = resize img1 wh;
          img2' = resize img2 wh;
          diff_img = new_image wh;
          total_pixels = int (fst wh * snd wh)
      in case pixel_loop img1' img2' (scan_order (fst wh) (snd wh)) (diff_img, 0) of
           Inl e \<Rightarrow> Inl e
         | Inr (diff_img', diff_count) \<Rightarrow> Inr (diff_img', diff_count, total_pixels))"

text \<open>Line 3130: \<^verbatim>\<open>int((diff_count / total_pixels) * 100)\<close>.\<close>

definition diff_score :: "int \<Rightarrow> int \<Rightarrow> py_error + int" where
  "diff_score diff_count total_pixels =
     (case py_truediv diff_count total_pixels of
        Inl e \<Rightarrow> Inl e
      | Inr q \<Rightarrow> Inr (py_int (float_mul q (float_of_int 100))))"

text \<open>The score of two images: lines 3099 to 3130 without the file and database effects.\<close>

definition pixel_diff_score ::
  "(image \<Rightarrow> nat \<times> nat \<Rightarrow> image) \<Rightarrow> image \<Rightarrow> image \<Rightarrow> py_error + int" where
  "pixel_diff_score resize img1 img2 =
     (case render_diff resize img1 img2 of
        Inl e \<Rightarrow> Inl e
      | Inr (diff_img, diff_count, total_pixels) \<Rightarrow> diff_score diff_count total_pixels)"

subsection \<open>Notions used to state the properties of the pixel differ\<close>

text \<open>What the library promises of \<^verbatim>\<open>resize\<close>: an image of the requested size.\<close>

definition resize_ok :: "(image \<Rightarrow> nat \<times> nat \<Rightarrow> image) \<Rightarrow> bool" where
  "resize_ok resize \<longleftrightarrow>
     (\<forall>img wh. width (resize img wh) = fst wh \<and> height (resize img wh) = snd wh)"

text \<open>A resize by nearest-neighbour sampling, as an instance of the parameter.\<close>

definition resize_nearest :: "image \<Rightarrow> nat \<times> nat \<Rightarrow> image" where
  "resize_nearest img wh =
     \<lparr>width = fst wh, height = snd wh,
      pixels = (\<lambda>xy. pixels img (fst xy * width img div fst wh, snd xy * height img div snd wh))\<rparr>"

definition channel_distance :: "rgb \<Rightarrow> rgb \<Rightarrow> int" where
  "channel_distance p q =
     \<bar>fst p - fst q\<bar> + \<bar>fst (snd p) - fst (snd q)\<bar> + \<bar>snd (snd p) - snd (snd q)\<bar>"

definition far :: "image \<Rightarrow> image \<Rightarrow> nat \<times> nat \<Rightarrow> bool" where
  "far img1 img2 xy \<longleftrightarrow> 15 < channel_distance (pixels img1 xy) (pixels img2 xy)"

text \<open>The output pixel for a base pixel \<open>p\<close> and a compare pixel \<open>q\<close>.\<close>

definition pixel_out :: "rgb \<Rightarrow> rgb \<Rightarrow> rgb" where
  "pixel_out p q =
     (if 15 < channel_distance p q then (255, 0, 0)
      else (fade (fst p), fade (fst (snd p)), fade (snd (snd p))))"

subsection \<open>Sample images\<close>

definition solid :: "nat \<Rightarrow> nat \<Rightarrow> rgb \<Rightarrow> image" where
  "solid w h c = \<lparr>width = w, height = h, pixels = (\<lambda>xy. c)\<rparr>"

text \<open>A black image whose first \<open>n\<close> pixels in scan order are white.\<close>

definition first_white :: "nat \<Rightarrow> nat \<Rightarrow> nat \<Rightarrow> image" where
  "first_white w h n =
     \<lparr>width = w, height = h,
      pixels = (\<lambda>xy. if snd xy * w + fst xy < n then (255, 255, 255) else (0, 0, 0))\<rparr>"


section \<open>The extraction script (compare\_images\_logic, main.py, lines 3010 to 3048)\<close>

text \<open>
  The script runs in the page. An element node is given by what the script reads of it.
  \<^verbatim>\<open>window.getComputedStyle(node)\<close> and \<^verbatim>\<open>node.getBoundingClientRect()\<close> are
  calls into the browser: each either returns or throws, and a JavaScript exception
  that leaves the script reaches Python as an error of \<^verbatim>\<open>page.evaluate\<close>.
  Strings are lists of code units; the type \<open>char\<close> holds the code units below 256.
  \<^verbatim>\<open>String.prototype.trim\<close> is a built-in of the page's JavaScript runtime, not
  code of the script: the script is modelled for any function \<open>trim\<close>, which the
  page supplies.
\<close>

record computed_style =
  display :: string
  visibility :: string
  color :: string
  backgroundColor :: string
  fontFamily :: string
  fontSize :: string
  fontWeight :: string
  textAlign :: string

datatype child_node = TextNode string | OtherNode

record dom_node =
  tagName :: string
  node_id :: string
  classList :: "string list"
  innerText :: "string option"
  childNodes :: "child_node list"
  getComputedStyle :: "py_error + computed_style"
  getBoundingClientRect :: "py_error + rect"

text \<open>Line 3021.\<close>

fun is_text :: "(string \<Rightarrow> string) \<Rightarrow> child_node \<Rightarrow> bool" where
  "is_text trim (TextNode t) = (0 < length (trim t))"
| "is_text trim OtherNode = False"

definition hasText :: "(string \<Rightarrow> string) \<Rightarrow> dom_node \<Rightarrow> bool" where
  "hasText trim node = list_ex (is_text trim) (childNodes node)"

text \<open>Line 3028: \<^verbatim>\<open>node.innerText?.trim().substring(0, 200) || ""\<close>.\<close>

definition snapshot_text :: "(string \<Rightarrow> string) \<Rightarrow> dom_node \<Rightarrow> string" where
  "snapshot_text trim node =
     (case innerText node of None \<Rightarrow> [] | Some t \<Rightarrow> take 200 (trim t))"

text \<open>Lines 3024 to 3043: the object pushed for a node, at scroll offsets \<open>sx\<close> and \<open>sy\<close>.\<close>

definition snapshot ::
  "(string \<Rightarrow> string) \<Rightarrow> rat \<Rightarrow> rat \<Rightarrow> dom_node \<Rightarrow> computed_style \<Rightarrow> rect \<Rightarrow> element" where
  "snapshot trim sx sy node style r =
     \<lparr>tag = tagName node,
      el_id = Some (node_id node),
      classes = classList node,
      el_text = snapshot_text trim node,
      rect = \<lparr>rect_x = round_binary64 (rect_x r + sx),
               rect_y = round_binary64 (rect_y r + sy),
               rect_width = rect_width r,
               rect_height = rect_height r\<rparr>,
      styles = [''color'' \<mapsto> color style,
                ''background-color'' \<mapsto> backgroundColor style,
                ''font-family'' \<mapsto> fontFamily style,
                ''font-size'' \<mapsto> fontSize style,
                ''font-weight'' \<mapsto> fontWeight style,
                ''text-align'' \<mapsto> textAlign style]\<rparr>"

text \<open>Line 3019, the \<^verbatim>\<open>continue\<close>, and line 3023.\<close>

definition hidden :: "computed_style \<Rightarrow> rect \<Rightarrow> bool" where
  "hidden style r \<longleftrightarrow>
     rect_width r = 0 \<or> rect_height r = 0 \<or> display style = ''none''
   \<or> visibility style = ''hidden''"

definition qualifies :: "(string \<Rightarrow> string) \<Rightarrow> dom_node \<Rightarrow> bool" where
  "qualifies trim node \<longleftrightarrow>
     hasText trim node \<or> tagName node = ''IMG'' \<or> tagName node = ''BUTTON''
   \<or> tagName node = ''INPUT''"

text \<open>
  The loop of line 3014 over the element nodes under \<^verbatim>\<open>document.body\<close>, in the
  order in which \<^verbatim>\<open>walker.nextNode()\<close> yields them. The script has no
  \<^verbatim>\<open>try\<close>: an exception of either call ends it.
\<close>

fun extraction_loop ::
  "(string \<Rightarrow> string) \<Rightarrow> rat \<Rightarrow> rat \<Rightarrow> dom_node list \<Rightarrow> element list \<Rightarrow>
   py_error + element list" where
  "extraction_loop trim sx sy [] elements = Inr elements"
| "extraction_loop trim sx sy (node # rest) elements =
     (case getComputedStyle node of
        Inl e \<Rightarrow> Inl e
      | Inr style \<Rightarrow>
          (case getBoundingClientRect node of
             Inl e \<Rightarrow> Inl e
           | Inr r \<Rightarrow>
               if hidden style r then extraction_loop trim sx sy rest elements
               else if qualifies trim node
                    then extraction_loop trim sx sy rest
                           (elements @ [snapshot trim sx sy node style r])
                    else extraction_loop trim sx sy rest elements))"

text \<open>
  A loaded page: its screenshot, its scroll offsets, the element nodes under the body in
  document order, and the \<^verbatim>\<open>trim\<close> of its runtime.
\<close>

record page =
  screenshot_png :: image
  scrollX :: rat
  scrollY :: rat
  body_nodes :: "dom_node list"
  page_trim :: "string \<Rightarrow> string"

definition extraction_script :: "page \<Rightarrow> py_error + element list" where
  "extraction_script pg =
     extraction_loop (page_trim pg) (scrollX pg) (scrollY pg) (body_nodes pg) []"

subsection \<open>Notions used to state the properties of the extraction\<close>

definition throws :: "dom_node \<Rightarrow> bool" where
  "throws node \<longleftrightarrow> isl (getComputedStyle node) \<or> isl (getBoundingClientRect node)"

text \<open>The snapshot of a node whose two calls return, if it is visible and qualifies.\<close>

definition emitted :: "(string \<Rightarrow> string) \<Rightarrow> rat \<Rightarrow> rat \<Rightarrow> dom_node \<Rightarrow> element list" where
  "emitted trim sx sy node =
     (case getComputedStyle node of
        Inl e \<Rightarrow> []
      | Inr style \<Rightarrow>
          (case getBoundingClientRect node of
             Inl e \<Rightarrow> []
           | Inr r \<Rightarrow>
               if \<not> hidden style r \<and> qualifies trim node
               then [snapshot trim sx sy node style r] else []))"

subsection \<open>Sample nodes\<close>

text \<open>
  An instance of \<open>trim\<close>: it removes, at both ends, the code units below 256 that
  \<^verbatim>\<open>String.prototype.trim\<close> removes (tab, line feed, vertical tab, form feed,
  carriage return, space and no-break space).
\<close>

definition js_space :: "char \<Rightarrow> bool" where
  "js_space c \<longleftrightarrow>
     c \<in> set [CHR 0x09, CHR 0x0A, CHR 0x0B, CHR 0x0C, CHR 0x0D, CHR 0x20, CHR 0xA0]"

definition js_trim :: "string \<Rightarrow> string" where
  "js_trim s = rev (dropWhile js_space (rev (dropWhile js_space s)))"

definition plain_style :: computed_style where
  "plain_style = \<lparr>display = ''block'', visibility = ''visible'', color = ''rgb(0, 0, 0)'',
     backgroundColor = ''rgba(0, 0, 0, 0)'', fontFamily = ''serif'', fontSize = ''16px'',
     fontWeight = ''400'', textAlign = ''start''\<rparr>"

definition heading_node :: dom_node where
  "heading_node = \<lparr>tagName = ''H1'', node_id = [], classList = [], innerText = Some '' Hello '',
     childNodes = [TextNode '' Hello ''],
     getComputedStyle = Inr plain_style,
     getBoundingClientRect = Inr \<lparr>rect_x = 0, rect_y = 0, rect_width = 100, rect_height = 20\<rparr>\<rparr>"

definition button_node :: dom_node where
  "button_node = \<lparr>tagName = ''BUTTON'', node_id = ''buy'', classList = [''cta''],
     innerText = Some ''Buy'', childNodes = [TextNode ''Buy''],
     getComputedStyle = Inr plain_style,
     getBoundingClientRect = Inr \<lparr>rect_x = 10, rect_y = 40, rect_width = 80, rect_height = 24\<rparr>\<rparr>"

text \<open>A node whose bounding rectangle cannot be read.\<close>

definition detached_node :: dom_node where
  "detached_node = \<lparr>tagName = ''P'', node_id = [], classList = [], innerText = Some ''gone'',
     childNodes = [TextNode ''gone''],
     getComputedStyle = Inr plain_style,
     getBoundingClientRect = Inl PlaywrightError\<rparr>"

text \<open>A block whose only text is a no-break space.\<close>

definition nbsp_node :: dom_node where
  "nbsp_node = \<lparr>tagName = ''DIV'', node_id = [], classList = [], innerText = Some [CHR 0xA0],
     childNodes = [TextNode [CHR 0xA0]],
     getComputedStyle = Inr plain_style,
     getBoundingClientRect = Inr \<lparr>rect_x = 0, rect_y = 30, rect_width = 100, rect_height = 5\<rparr>\<rparr>"


section \<open>Files, database and the comparison run (main.py, lines 3006 to 3158)\<close>

text \<open>
  The state the comparison acts on: the files under \<^verbatim>\<open>diffs/\<close>, the session
  rows and the committed \<^verbatim>\<open>VisualAuditResult\<close> rows.
  \<^verbatim>\<open>completed_at\<close> is a clock reading and is left out. A file holds a decodable
  image, a complete DOM report, or anything else (\<open>Garbage\<close>): bytes that are
  neither, such as an empty or half-written file.
\<close>

datatype file_content = Png image | Json "diff_entry list" | Garbage

text \<open>
  What a write to a path does, as the environment decides: it succeeds; or it raises
  before the file is opened and the path stays as it was; or it raises after the file
  was opened for writing, which has created or truncated it, and the path is left with
  an empty or half-written file. Line 3073 opens \<^verbatim>\<open>diff_report.json\<close> with mode
  \<^verbatim>\<open>"w"\<close> before line 3074 dumps into it.
\<close>

datatype write_result = Written | Refused | Torn

record visual_audit_result =
  vr_session_id :: string
  vr_base_url :: string
  vr_compare_url :: string
  vr_diff_score :: int
  vr_base_image_path :: string
  vr_compare_image_path :: string
  vr_diff_image_path :: string

record audit_session =
  status :: string
  completed :: int

record world =
  files :: "string \<rightharpoonup> file_content"
  write_outcome :: "string \<Rightarrow> write_result"
  sessions :: "string \<rightharpoonup> audit_session"
  results :: "visual_audit_result list"

text \<open>A write: the exception raised, if any, and the state it leaves.\<close>

definition write_file :: "world \<Rightarrow> string \<Rightarrow> file_content \<Rightarrow> py_error option \<times> world" where
  "write_file w path c =
     (case write_outcome w path of
        Written \<Rightarrow> (None, w\<lparr>files := (files w)(path \<mapsto> c)\<rparr>)
      | Refused \<Rightarrow> (Some OSError, w)
      | Torn \<Rightarrow> (Some OSError, w\<lparr>files := (files w)(path \<mapsto> Garbage)\<rparr>))"

text \<open>\<^verbatim>\<open>Image.open(path).convert("RGB")\<close>.\<close>

definition open_image :: "world \<Rightarrow> string \<Rightarrow> py_error + image" where
  "open_image w path = (case files w path of Some (Png img) \<Rightarrow> Inr img | _ \<Rightarrow> Inl OSError)"

text \<open>
  The body of the \<^verbatim>\<open>try\<close> of \<^verbatim>\<open>process_image_diff\<close> up to the score
  (lines 3095 to 3130), with the state at the point where it ends or raises.
\<close>

definition diff_try ::
  "(image \<Rightarrow> nat \<times> nat \<Rightarrow> image) \<Rightarrow> string \<Rightarrow> string \<Rightarrow> string \<Rightarrow> world \<Rightarrow>
   (py_error + int \<times> string) \<times> world" where
  "diff_try resize base_path compare_path session_folder w =
     (case open_image w base_path of
        Inl e \<Rightarrow> (Inl e, w)
      | Inr img1 \<Rightarrow>
          (case open_image w compare_path of
             Inl e \<Rightarrow> (Inl e, w)
           | Inr img2 \<Rightarrow>
               (case render_diff resize img1 img2 of
                  Inl e \<Rightarrow> (Inl e, w)
                | Inr (diff_img, diff_count, total_pixels) \<Rightarrow>
                    (let diff_path = session_folder @ ''/diff.png''
                     in case write_file w diff_path (Png diff_img) of
                          (Some e, w') \<Rightarrow> (Inl e, w')
                        | (None, w') \<Rightarrow>
                            (case diff_score diff_count total_pixels of
                               Inl e \<Rightarrow> (Inl e, w')
                             | Inr score \<Rightarrow> (Inr (score, diff_path), w'))))))"

text \<open>
  Lines 3086 to 3158. On success the result row is added and, when the session row
  exists, the session is completed and both are committed; without the session row
  nothing is committed. Any exception marks the session \<^verbatim>\<open>"error"\<close>.
\<close>

definition process_image_diff ::
  "(image \<Rightarrow> nat \<times> nat \<Rightarrow> image) \<Rightarrow> string \<Rightarrow> string \<Rightarrow> string \<Rightarrow> string \<Rightarrow> string \<Rightarrow>
   string \<Rightarrow> world \<Rightarrow> world" where
  "process_image_diff resize base_path compare_path session_folder session_id base_url
     compare_url w =
     (case diff_try resize base_path compare_path session_folder w of
        (Inr (score, diff_path), w') \<Rightarrow>
          (case sessions w' session_id of
             Some session \<Rightarrow>
               w'\<lparr>sessions := (sessions w')
                      (session_id \<mapsto> session\<lparr>status := ''completed'', completed := 1\<rparr>),
                   results := results w' @
                      [\<lparr>vr_session_id = session_id, vr_base_url = base_url,
                        vr_compare_url = compare_url, vr_diff_score = score,
                        vr_base_image_path = base_path, vr_compare_image_path = compare_path,
                        vr_diff_image_path = diff_path\<rparr>]\<rparr>
           | None \<Rightarrow> w')
      | (Inl e, w') \<Rightarrow>
          (case sessions w' session_id of
             Some session \<Rightarrow>
               w'\<lparr>sessions := (sessions w')(session_id \<mapsto> session\<lparr>status := ''error''\<rparr>)\<rparr>
           | None \<Rightarrow> w'))"

text \<open>
  One side of the capture (lines 3057 to 3060 and 3063 to 3066): navigation, screenshot
  to \<open>path\<close>, extraction. The browser is a parameter: \<open>browser url\<close> is the
  outcome of \<^verbatim>\<open>page.goto(url)\<close>, an error or the loaded page.
\<close>

definition capture ::
  "(string \<Rightarrow> py_error + page) \<Rightarrow> string \<Rightarrow> string \<Rightarrow> world \<Rightarrow> (py_error + element list) \<times> world" where
  "capture browser url path w =
     (case browser url of
        Inl e \<Rightarrow> (Inl e, w)
      | Inr pg \<Rightarrow>
          (case write_file w path (Png (screenshot_png pg)) of
             (Some e, w') \<Rightarrow> (Inl e, w')
           | (None, w') \<Rightarrow> (extraction_script pg, w')))"

text \<open>
  Lines 3071 to 3076: the inner \<^verbatim>\<open>try\<close>. An exception of the differ or of the
  write is printed and the run goes on, in the state the write has left.
\<close>

definition dom_diff_stage :: "string \<Rightarrow> element list \<Rightarrow> element list \<Rightarrow> world \<Rightarrow> world" where
  "dom_diff_stage session_folder base_dom compare_dom w =
     (case compare_dom_elements base_dom compare_dom of
        Inl e \<Rightarrow> w
      | Inr dom_diffs \<Rightarrow>
          snd (write_file w (session_folder @ ''/diff_report.json'') (Json dom_diffs)))"

text \<open>
  Lines 3006 to 3084. The outer \<^verbatim>\<open>except\<close> prints the exception and does
  nothing else.
\<close>

definition compare_images_logic ::
  "(string \<Rightarrow> py_error + page) \<Rightarrow> (image \<Rightarrow> nat \<times> nat \<Rightarrow> image) \<Rightarrow> string \<Rightarrow> string \<Rightarrow> string \<Rightarrow>
   world \<Rightarrow> world" where
  "compare_images_logic browser resize base_url compare_url session_id w =
     (let session_folder = ''diffs/'' @ session_id;
          base_path = session_folder @ ''/base.png'';
          compare_path = session_folder @ ''/compare.png''
      in case capture browser base_url base_path w of
           (Inl e, w1) \<Rightarrow> w1
         | (Inr base_dom, w1) \<Rightarrow>
             (case capture browser compare_url compare_path w1 of
                (Inl e, w2) \<Rightarrow> w2
              | (Inr compare_dom, w2) \<Rightarrow>
                  process_image_diff resize base_path compare_path session_folder session_id
                    base_url compare_url
                    (dom_diff_stage session_folder base_dom compare_dom w2)))"

subsection \<open>Sample runs\<close>

text \<open>
  A world with one running session and no files. The initial status of a session row
  is set where the row is created; any status other than \<^verbatim>\<open>"error"\<close> serves here.
\<close>

definition fresh_world :: "(string \<Rightarrow> write_result) \<Rightarrow> world" where
  "fresh_world outcome =
     \<lparr>files = Map.empty, write_outcome = outcome,
      sessions = [''vis_1'' \<mapsto> \<lparr>status = ''running'', completed = 0\<rparr>],
      results = []\<rparr>"

definition base_page :: page where
  "base_page = \<lparr>screenshot_png = solid 1 1 (0, 0, 0), scrollX = 0, scrollY = 0,
     body_nodes = [heading_node], page_trim = js_trim\<rparr>"

definition compare_page :: page where
  "compare_page = \<lparr>screenshot_png = solid 1 1 (255, 255, 255), scrollX = 0, scrollY = 0,
     body_nodes = [heading_node, button_node], page_trim = js_trim\<rparr>"

text \<open>A browser that loads both pages, and one whose first navigation fails.\<close>

definition good_browser :: "string \<Rightarrow> py_error + page" where
  "good_browser url = (if url = ''http://a.test/'' then Inr base_page else Inr compare_page)"

definition down_browser :: "string \<Rightarrow> py_error + page" where
  "down_browser url = (if url = ''http://a.test/'' then Inl PlaywrightError else Inr compare_page)"

text \<open>A browser whose second page holds a node that cannot be measured.\<close>

definition flaky_browser :: "string \<Rightarrow> py_error + page" where
  "flaky_browser url =
     (if url = ''http://a.test/'' then Inr base_page
      else Inr (compare_page\<lparr>body_nodes := [heading_node, detached_node, button_node]\<rparr>))"

text \<open>A disk on which every write succeeds.\<close>

definition all_written :: "string \<Rightarrow> write_result" where
  "all_written path = Written"

text \<open>A disk on which the dump of the DOM report fails after the file was opened.\<close>

definition report_torn :: "string \<Rightarrow> write_result" where
  "report_torn path = (if path = ''diffs/vis_1/diff_report.json'' then Torn else Written)"

text \<open>The state after the first and after the second capture of the sample run.\<close>

definition after_base :: "(string \<Rightarrow> write_result) \<Rightarrow> world" where
  "after_base outcome =
     (fresh_world outcome)\<lparr>files := [''diffs/vis_1/base.png'' \<mapsto> Png (solid 1 1 (0, 0, 0))]\<rparr>"

definition after_compare :: "(string \<Rightarrow> write_result) \<Rightarrow> world" where
  "after_compare outcome =
     (fresh_world outcome)\<lparr>files := [''diffs/vis_1/base.png'' \<mapsto> Png (solid 1 1 (0, 0, 0)),
                                   ''diffs/vis_1/compare.png'' \<mapsto> Png (solid 1 1 (255, 255, 255))]\<rparr>"

text \<open>A disk on which the diff image cannot be saved.\<close>

definition diff_png_refused :: "string \<Rightarrow> write_result" where
  "diff_png_refused path = (if path = ''diffs/vis_1/diff.png'' then Refused else Written)"


section \<open>Properties of the DOM differ\<close>

lemmas sample_defs = p_red_def p_blue_def h1_red_def h1_black_def buy_button_def buy_now_button_def
  li_one_def li_plain_def li_two_def

lemmas differ_defs = compare_dom_elements_def compare_step_def pop_def match_index_def
  style_entry_def target_styles_def Let_def removed_entry_def

lemma id_search_find:
  "id_search ub c = map_option fst (find (\<lambda>p. same_id_tag c (snd p)) ub)"
  by (induction ub) (auto simp: same_id_tag_def)

lemma text_search_find:
  "text_search ub c = map_option fst (find (\<lambda>p. same_tag_text c (snd p)) ub)"
  by (induction ub) (auto simp: same_tag_text_def)

lemma find_first_at:
  "find (\<lambda>p. P (snd p)) ub = Some q \<longleftrightarrow> (\<exists>n. first_at P ub n \<and> q = ub ! n)"
  by (auto simp: find_Some_iff first_at_def)

lemma first_at_unique: "first_at P ub n \<Longrightarrow> first_at P ub m \<Longrightarrow> n = m"
  unfolding first_at_def by (meson linorder_neqE_nat)

lemma find_None_first_at:
  "find (\<lambda>p. P (snd p)) ub = None \<longleftrightarrow> (\<forall>n. \<not> first_at P ub n)"
proof
  assume "find (\<lambda>p. P (snd p)) ub = None"
  then show "\<forall>n. \<not> first_at P ub n"
    by (auto simp: find_None_iff first_at_def) (metis nth_mem prod.collapse)
next
  assume h: "\<forall>n. \<not> first_at P ub n"
  show "find (\<lambda>p. P (snd p)) ub = None"
  proof (cases "find (\<lambda>p. P (snd p)) ub")
    case None then show ?thesis .
  next
    case (Some q)
    then show ?thesis using h find_first_at[of P ub q] by blast
  qed
qed

lemma pop_found:
  assumes "distinct (map fst d)" "(k, v) \<in> set d"
  shows "pop d k = Inr (v, filter (\<lambda>p. fst p \<noteq> k) d)"
  using assms by (simp add: pop_def)

lemma match_index_in:
  "match_index ub c = Some i \<Longrightarrow> i \<in> fst ` set ub"
  by (auto simp: match_index_def Let_def id_search_find text_search_find find_Some_iff
      split: if_splits) (metis fst_conv image_eqI nth_mem)+

lemma wf_working_enumerate: "wf_working bs (enumerate 0 bs)"
  by (simp add: wf_working_def)

lemma wf_working_remaining: "wf_working bs ub \<Longrightarrow> wf_working bs (remaining ub ms)"
  by (auto simp: wf_working_def remaining_def distinct_map_filter)

lemma remaining_Nil [simp]: "remaining ub [] = ub"
  by (simp add: remaining_def)

lemma remaining_remaining: "remaining (remaining ub ms) ns = remaining ub (ms @ ns)"
  by (auto simp: remaining_def intro: filter_cong)

lemma remaining_Cons: "remaining ub (m # ms) = remaining (remaining ub [m]) ms"
  by (simp add: remaining_remaining)

lemma compare_step_eq:
  assumes "wf_working bs ub"
  shows "compare_step ub c =
           Inr (remaining ub [match_index ub c], entry_for bs c (match_index ub c))"
proof (cases "match_index ub c")
  case None
  then show ?thesis
    by (simp add: compare_step_def remaining_def entry_for_def)
next
  case (Some i)
  then obtain b where b: "(i, b) \<in> set ub"
    using match_index_in by fastforce
  with assms have "b = bs ! i"
    by (auto simp: wf_working_def in_set_enumerate_eq)
  moreover have "pop ub i = Inr (b, filter (\<lambda>p. fst p \<noteq> i) ub)"
    using assms b by (simp add: pop_found wf_working_def)
  ultimately show ?thesis
    using Some by (simp add: compare_step_def remaining_def entry_for_def)
qed

lemma match_trace_Cons:
  "wf_working bs ub \<Longrightarrow>
   match_trace ub (c # cs) = match_index ub c # match_trace (remaining ub [match_index ub c]) cs"
  by (simp add: compare_step_eq)

declare match_trace.simps(2) [simp del]

lemma length_match_trace: "wf_working bs ub \<Longrightarrow> length (match_trace ub cs) = length cs"
proof (induction cs arbitrary: ub)
  case Nil
  then show ?case by simp
next
  case (Cons c cs)
  then show ?case
    by (simp only: match_trace_Cons[OF Cons.prems] list.size wf_working_remaining)
qed

lemma compare_loop_eq:
  "wf_working bs ub \<Longrightarrow>
   compare_loop ub cs out =
     Inr (remaining ub (match_trace ub cs),
          out @ concat (map2 (entry_for bs) cs (match_trace ub cs)))"
proof (induction cs arbitrary: ub out)
  case Nil
  then show ?case by simp
next
  case (Cons c cs)
  let ?m = "match_index ub c"
  have wf': "wf_working bs (remaining ub [?m])"
    using Cons.prems by (rule wf_working_remaining)
  have "compare_loop ub (c # cs) out =
          compare_loop (remaining ub [?m]) cs (out @ entry_for bs c ?m)"
    by (simp add: compare_step_eq[OF Cons.prems])
  also have "\<dots> = Inr (remaining (remaining ub [?m]) (match_trace (remaining ub [?m]) cs),
        (out @ entry_for bs c ?m) @
          concat (map2 (entry_for bs) cs (match_trace (remaining ub [?m]) cs)))"
    by (rule Cons.IH[OF wf'])
  finally show ?case
    by (simp add: match_trace_Cons[OF Cons.prems] remaining_Cons[symmetric])
qed

lemma match_trace_take:
  "wf_working bs ub \<Longrightarrow> match_trace ub (take k cs) = take k (match_trace ub cs)"
proof (induction cs arbitrary: ub k)
  case Nil
  then show ?case by simp
next
  case (Cons c cs)
  show ?case
  proof (cases k)
    case 0
    then show ?thesis by simp
  next
    case (Suc k')
    then show ?thesis
      using Cons.IH[OF wf_working_remaining[OF Cons.prems]]
      by (simp add: match_trace_Cons[OF Cons.prems])
  qed
qed

lemma match_trace_nth:
  "wf_working bs ub \<Longrightarrow> k < length cs \<Longrightarrow>
   match_trace ub cs ! k = match_index (remaining ub (take k (match_trace ub cs))) (cs ! k)"
proof (induction cs arbitrary: ub k)
  case Nil
  then show ?case by simp
next
  case (Cons c cs)
  show ?case
  proof (cases k)
    case 0
    then show ?thesis by (simp add: match_trace_Cons[OF Cons.prems(1)])
  next
    case (Suc k')
    then show ?thesis
      using Cons.IH[OF wf_working_remaining[OF Cons.prems(1)], of k' "[match_index ub c]"] Cons.prems(2)
      by (simp add: match_trace_Cons[OF Cons.prems(1)] remaining_Cons[symmetric])
  qed
qed

lemma match_index_by_id:
  assumes "truthy (el_id c)" "first_at (same_id_tag c) ub n"
  shows "match_index ub c = Some (fst (ub ! n))"
proof -
  have "find (\<lambda>p. same_id_tag c (snd p)) ub = Some (ub ! n)"
    using assms(2) find_first_at by blast
  then show ?thesis
    using assms(1) by (simp add: match_index_def id_search_find)
qed

lemma match_index_by_text:
  assumes "\<not> (truthy (el_id c) \<and> (\<exists>j. first_at (same_id_tag c) ub j))"
    and "first_at (same_tag_text c) ub n"
  shows "match_index ub c = Some (fst (ub ! n))"
proof -
  have t: "find (\<lambda>p. same_tag_text c (snd p)) ub = Some (ub ! n)"
    using assms(2) find_first_at by blast
  have "truthy (el_id c) \<Longrightarrow> find (\<lambda>p. same_id_tag c (snd p)) ub = None"
    using assms(1) find_None_first_at by blast
  then show ?thesis
    using t by (auto simp: match_index_def id_search_find text_search_find)
qed

lemma match_index_none:
  assumes "\<not> (truthy (el_id c) \<and> (\<exists>j. first_at (same_id_tag c) ub j))"
    and "\<forall>n. \<not> first_at (same_tag_text c) ub n"
  shows "match_index ub c = None"
proof -
  have t: "find (\<lambda>p. same_tag_text c (snd p)) ub = None"
    using assms(2) find_None_first_at by blast
  have "truthy (el_id c) \<Longrightarrow> find (\<lambda>p. same_id_tag c (snd p)) ub = None"
    using assms(1) find_None_first_at by blast
  then show ?thesis
    using t by (auto simp: match_index_def id_search_find text_search_find)
qed

lemma compare_loop_take:
  assumes "wf_working bs ub"
  shows "\<exists>out'. compare_loop ub (take k cs) out =
           Inr (remaining ub (take k (match_trace ub cs)), out')"
  using compare_loop_eq[OF assms, of "take k cs" out] match_trace_take[OF assms, of k cs]
  by simp

lemma matched_not_remaining:
  assumes "wf_working bs ub" "k < length cs" "match_trace ub cs ! k = Some i" "k < k'"
  shows "i \<notin> fst ` set (remaining ub (take k' (match_trace ub cs)))"
proof -
  have "k < length (match_trace ub cs)"
    using assms(1,2) by (simp add: length_match_trace)
  then have "Some i \<in> set (take k' (match_trace ub cs))"
    using assms(3,4) by (metis in_set_conv_nth length_take min_less_iff_conj nth_take)
  then show ?thesis
    by (auto simp: remaining_def)
qed

text \<open>
  C1. Let \<open>ub\<close> be the working set when the compare element of position \<open>k\<close> is
  reached: what the loop has left of \<^verbatim>\<open>enumerate(base_elements)\<close> after the
  first \<open>k\<close> compare elements, in base order. If the element has a non-empty id and
  some item of \<open>ub\<close> has the same id and tag, the match is the first such item.
  Otherwise (empty id, or no such item) the match is the first item of \<open>ub\<close> with the
  same tag and the same text, and there is no match when there is none. A matched index
  is removed by that pass, alone, and is in no later working set; a pass without a match
  leaves the working set as it is.
\<close>

theorem matching_rule:
  assumes "k < length compare_elements"
  shows "\<exists>ub out.
           compare_loop (enumerate 0 base_elements) (take k compare_elements) [] = Inr (ub, out)
         \<and> subseq ub (enumerate 0 base_elements)
         \<and> (\<forall>n. truthy (el_id (compare_elements ! k))
                  \<and> first_at (same_id_tag (compare_elements ! k)) ub n
                \<longrightarrow> match_index ub (compare_elements ! k) = Some (fst (ub ! n)))
         \<and> (\<forall>n. \<not> (truthy (el_id (compare_elements ! k))
                      \<and> (\<exists>j. first_at (same_id_tag (compare_elements ! k)) ub j))
                  \<and> first_at (same_tag_text (compare_elements ! k)) ub n
                \<longrightarrow> match_index ub (compare_elements ! k) = Some (fst (ub ! n)))
         \<and> (\<not> (truthy (el_id (compare_elements ! k))
                  \<and> (\<exists>j. first_at (same_id_tag (compare_elements ! k)) ub j))
              \<and> (\<forall>n. \<not> first_at (same_tag_text (compare_elements ! k)) ub n)
                \<longrightarrow> match_index ub (compare_elements ! k) = None)
         \<and> (\<forall>i. match_index ub (compare_elements ! k) = Some i \<longrightarrow>
               (\<forall>k'. k < k' \<and> k' \<le> length compare_elements \<longrightarrow>
                  (\<exists>ub' out'.
                     compare_loop (enumerate 0 base_elements) (take k' compare_elements) [] =
                       Inr (ub', out')
                   \<and> i \<notin> fst ` set ub'
                   \<and> (k' = Suc k \<longrightarrow> ub' = filter (\<lambda>p. fst p \<noteq> i) ub))))
         \<and> (match_index ub (compare_elements ! k) = None \<longrightarrow>
               (\<exists>out'. compare_loop (enumerate 0 base_elements)
                         (take (Suc k) compare_elements) [] = Inr (ub, out')))"
proof -
  let ?e = "enumerate 0 base_elements"
  let ?M = "match_trace ?e compare_elements"
  let ?ub = "remaining ?e (take k ?M)"
  let ?c = "compare_elements ! k"
  have wf: "wf_working base_elements ?e"
    by (rule wf_working_enumerate)
  obtain out where run: "compare_loop ?e (take k compare_elements) [] = Inr (?ub, out)"
    using compare_loop_take[OF wf] by blast
  have sub: "subseq ?ub ?e"
    by (simp add: remaining_def)
  have nth: "?M ! k = match_index ?ub ?c"
    using match_trace_nth[OF wf assms] .
  have later: "\<exists>ub' out'.
         compare_loop ?e (take k' compare_elements) [] = Inr (ub', out')
       \<and> i \<notin> fst ` set ub'
       \<and> (k' = Suc k \<longrightarrow> ub' = filter (\<lambda>p. fst p \<noteq> i) ?ub)"
    if m: "match_index ?ub ?c = Some i" and k': "k < k'" for i k'
  proof -
    obtain out' where run':
      "compare_loop ?e (take k' compare_elements) [] = Inr (remaining ?e (take k' ?M), out')"
      using compare_loop_take[OF wf] by blast
    have gone: "i \<notin> fst ` set (remaining ?e (take k' ?M))"
      using matched_not_remaining[OF wf assms _ k'] m nth by simp
    have "remaining ?e (take (Suc k) ?M) = filter (\<lambda>p. fst p \<noteq> i) ?ub"
    proof -
      have "k < length ?M"
        using assms wf by (simp add: length_match_trace)
      then have "take (Suc k) ?M = take k ?M @ [Some i]"
        using m nth by (simp add: take_Suc_conv_app_nth)
      then show ?thesis
        by (simp add: remaining_remaining[symmetric]) (simp add: remaining_def)
    qed
    then show ?thesis
      using run' gone by auto
  qed
  have by_id: "\<forall>n. truthy (el_id ?c) \<and> first_at (same_id_tag ?c) ?ub n
                \<longrightarrow> match_index ?ub ?c = Some (fst (?ub ! n))"
    using match_index_by_id by blast
  have by_text: "\<forall>n. \<not> (truthy (el_id ?c) \<and> (\<exists>j. first_at (same_id_tag ?c) ?ub j))
                  \<and> first_at (same_tag_text ?c) ?ub n
                \<longrightarrow> match_index ?ub ?c = Some (fst (?ub ! n))"
    using match_index_by_text by blast
  have none: "\<not> (truthy (el_id ?c) \<and> (\<exists>j. first_at (same_id_tag ?c) ?ub j))
              \<and> (\<forall>n. \<not> first_at (same_tag_text ?c) ?ub n)
                \<longrightarrow> match_index ?ub ?c = None"
    using match_index_none by blast
  have gone: "\<forall>i. match_index ?ub ?c = Some i \<longrightarrow>
               (\<forall>k'. k < k' \<and> k' \<le> length compare_elements \<longrightarrow>
                  (\<exists>ub' out'.
                     compare_loop ?e (take k' compare_elements) [] = Inr (ub', out')
                   \<and> i \<notin> fst ` set ub'
                   \<and> (k' = Suc k \<longrightarrow> ub' = filter (\<lambda>p. fst p \<noteq> i) ?ub)))"
    using later by blast
  have keep: "match_index ?ub ?c = None \<longrightarrow>
               (\<exists>out'. compare_loop ?e (take (Suc k) compare_elements) [] = Inr (?ub, out'))"
  proof
    assume m: "match_index ?ub ?c = None"
    have "k < length ?M"
      using assms wf by (simp add: length_match_trace)
    then have "take (Suc k) ?M = take k ?M @ [None]"
      using m nth by (simp add: take_Suc_conv_app_nth)
    then have "remaining ?e (take (Suc k) ?M) = ?ub"
      by (simp add: remaining_remaining[symmetric]) (simp add: remaining_def)
    then show "\<exists>out'. compare_loop ?e (take (Suc k) compare_elements) [] = Inr (?ub, out')"
      using compare_loop_take[OF wf, of "Suc k" compare_elements "[]"] by auto
  qed
  show ?thesis
    apply (rule exI[of _ ?ub])
    apply (rule exI[of _ out])
    apply (rule conjI[OF run])
    apply (rule conjI[OF sub])
    apply (rule conjI[OF by_id])
    apply (rule conjI[OF by_text])
    apply (rule conjI[OF none])
    apply (rule conjI[OF gone])
    apply (rule keep)
    done
qed

text \<open>The rule of C1 on a two-element run.\<close>

theorem matching_rule_witness:
  "(1::nat) < length [buy_now_button, p_blue]
   \<and> (\<exists>ub out. compare_loop (enumerate 0 [p_red, buy_button]) (take 1 [buy_now_button, p_blue]) [] =
       Inr (ub, out) \<and> subseq ub (enumerate 0 [p_red, buy_button]))
   \<and> compare_loop (enumerate 0 [p_red, buy_button]) (take 1 [buy_now_button, p_blue]) [] =
       Inr ([(0, p_red)], [])
   \<and> match_index [(0, p_red)] ([buy_now_button, p_blue] ! 1) = Some 0"
proof -
  have k: "(1::nat) < length [buy_now_button, p_blue]"
    by simp
  have a: "\<exists>ub out. compare_loop (enumerate 0 [p_red, buy_button]) (take 1 [buy_now_button, p_blue]) [] =
       Inr (ub, out) \<and> subseq ub (enumerate 0 [p_red, buy_button])"
    using matching_rule[OF k, of "[p_red, buy_button]"] by blast
  have b: "compare_loop (enumerate 0 [p_red, buy_button]) (take 1 [buy_now_button, p_blue]) [] =
       Inr ([(0, p_red)], [])"
    by (simp add: differ_defs sample_defs)
  have c: "match_index [(0, p_red)] ([buy_now_button, p_blue] ! 1) = Some 0"
    by (simp add: differ_defs sample_defs)
  show ?thesis
    using k a b c by blast
qed

lemma style_loop_eq:
  "style_loop bs cs props acc =
     acc @ map (\<lambda>p. (p, \<lparr>old = bs p, new = cs p\<rparr>)) (filter (\<lambda>p. bs p \<noteq> cs p) props)"
  by (induction props arbitrary: acc) (simp_all add: Let_def)

lemma style_entry_eq:
  "style_entry b c =
     (if \<forall>p\<in>set target_styles. styles b p = styles c p then []
      else [StyleChange (rect c)
              (map (\<lambda>p. (p, \<lparr>old = styles b p, new = styles c p\<rparr>))
                 (filter (\<lambda>p. styles b p \<noteq> styles c p) target_styles))
              (tag c) (el_text c)])"
  by (auto simp: style_entry_def style_loop_eq Let_def filter_empty_conv)

lemma style_entry_color_only:
  assumes "styles b ''color'' \<noteq> styles c ''color''"
    and "\<forall>p\<in>set target_styles. p \<noteq> ''color'' \<longrightarrow> styles b p = styles c p"
  shows "style_entry b c =
           [StyleChange (rect c) [(''color'', \<lparr>old = styles b ''color'', new = styles c ''color''\<rparr>)]
              (tag c) (el_text c)]"
  using assms by (simp add: style_entry_def style_loop_eq Let_def target_styles_def)



lemma compare_dom_elements_eq:
  "compare_dom_elements bs cs =
     Inr (concat (map2 (entry_for bs) cs (match_trace (enumerate 0 bs) cs)) @
          map removed_entry
            (filter (\<lambda>p. Some (fst p) \<notin> set (match_trace (enumerate 0 bs) cs))
               (enumerate 0 bs)))"
  by (simp add: compare_dom_elements_def compare_loop_eq[OF wf_working_enumerate] remaining_def)






text \<open>
  C8. The list returned by \<^verbatim>\<open>compare_dom_elements\<close> holds, at the place of each
  compare element, the contribution of that element. For a compare element matched with
  the base element of index \<open>i\<close> this contribution is empty when the six properties
  agree, and otherwise it is one \<^verbatim>\<open>style_change\<close> entry with the rect, tag and text of
  the compare element and, under \<^verbatim>\<open>diffs\<close>, the differing properties with their old
  (base) and new (compare) values. When the pair differs in \<^verbatim>\<open>color\<close> only,
  \<^verbatim>\<open>diffs\<close> has the single key \<^verbatim>\<open>color\<close>.
\<close>

theorem style_change_rule:
  "let M = match_trace (enumerate 0 base_elements) compare_elements in
     compare_dom_elements base_elements compare_elements =
       Inr (concat (map2 (entry_for base_elements) compare_elements M) @
            map removed_entry (filter (\<lambda>p. Some (fst p) \<notin> set M) (enumerate 0 base_elements)))
   \<and> (\<forall>k<length compare_elements.
         M ! k = match_index (remaining (enumerate 0 base_elements) (take k M))
                   (compare_elements ! k))
   \<and> (\<forall>k<length compare_elements. \<forall>i. M ! k = Some i \<longrightarrow>
         entry_for base_elements (compare_elements ! k) (M ! k) =
           (if \<forall>p\<in>set target_styles.
                 styles (base_elements ! i) p = styles (compare_elements ! k) p
            then []
            else [StyleChange (rect (compare_elements ! k))
                    (map (\<lambda>p. (p, \<lparr>old = styles (base_elements ! i) p,
                                    new = styles (compare_elements ! k) p\<rparr>))
                       (filter (\<lambda>p. styles (base_elements ! i) p \<noteq> styles (compare_elements ! k) p)
                          target_styles))
                    (tag (compare_elements ! k)) (el_text (compare_elements ! k))])
       \<and> (styles (base_elements ! i) ''color'' \<noteq> styles (compare_elements ! k) ''color''
            \<and> (\<forall>p\<in>set target_styles. p \<noteq> ''color'' \<longrightarrow>
                  styles (base_elements ! i) p = styles (compare_elements ! k) p)
          \<longrightarrow> entry_for base_elements (compare_elements ! k) (M ! k) =
                [StyleChange (rect (compare_elements ! k))
                   [(''color'', \<lparr>old = styles (base_elements ! i) ''color'',
                                 new = styles (compare_elements ! k) ''color''\<rparr>)]
                   (tag (compare_elements ! k)) (el_text (compare_elements ! k))]))"
proof -
  let ?e = "enumerate 0 base_elements"
  let ?M = "match_trace ?e compare_elements"
  have wf: "wf_working base_elements ?e" by (rule wf_working_enumerate)
  have nth: "\<forall>k<length compare_elements.
         ?M ! k = match_index (remaining ?e (take k ?M)) (compare_elements ! k)"
    using match_trace_nth[OF wf] by blast
  have pair: "\<forall>k<length compare_elements. \<forall>i. ?M ! k = Some i \<longrightarrow>
         entry_for base_elements (compare_elements ! k) (?M ! k) =
           (if \<forall>p\<in>set target_styles.
                 styles (base_elements ! i) p = styles (compare_elements ! k) p
            then []
            else [StyleChange (rect (compare_elements ! k))
                    (map (\<lambda>p. (p, \<lparr>old = styles (base_elements ! i) p,
                                    new = styles (compare_elements ! k) p\<rparr>))
                       (filter (\<lambda>p. styles (base_elements ! i) p \<noteq> styles (compare_elements ! k) p)
                          target_styles))
                    (tag (compare_elements ! k)) (el_text (compare_elements ! k))])
       \<and> (styles (base_elements ! i) ''color'' \<noteq> styles (compare_elements ! k) ''color''
            \<and> (\<forall>p\<in>set target_styles. p \<noteq> ''color'' \<longrightarrow>
                  styles (base_elements ! i) p = styles (compare_elements ! k) p)
          \<longrightarrow> entry_for base_elements (compare_elements ! k) (?M ! k) =
                [StyleChange (rect (compare_elements ! k))
                   [(''color'', \<lparr>old = styles (base_elements ! i) ''color'',
                                 new = styles (compare_elements ! k) ''color''\<rparr>)]
                   (tag (compare_elements ! k)) (el_text (compare_elements ! k))])"
  proof (intro allI impI)
    fix k i
    assume "k < length compare_elements" and m: "?M ! k = Some i"
    have e: "entry_for base_elements (compare_elements ! k) (?M ! k) =
               style_entry (base_elements ! i) (compare_elements ! k)"
      using m by (simp add: entry_for_def)
    show "entry_for base_elements (compare_elements ! k) (?M ! k) =
           (if \<forall>p\<in>set target_styles.
                 styles (base_elements ! i) p = styles (compare_elements ! k) p
            then []
            else [StyleChange (rect (compare_elements ! k))
                    (map (\<lambda>p. (p, \<lparr>old = styles (base_elements ! i) p,
                                    new = styles (compare_elements ! k) p\<rparr>))
                       (filter (\<lambda>p. styles (base_elements ! i) p \<noteq> styles (compare_elements ! k) p)
                          target_styles))
                    (tag (compare_elements ! k)) (el_text (compare_elements ! k))])
       \<and> (styles (base_elements ! i) ''color'' \<noteq> styles (compare_elements ! k) ''color''
            \<and> (\<forall>p\<in>set target_styles. p \<noteq> ''color'' \<longrightarrow>
                  styles (base_elements ! i) p = styles (compare_elements ! k) p)
          \<longrightarrow> entry_for base_elements (compare_elements ! k) (?M ! k) =
                [StyleChange (rect (compare_elements ! k))
                   [(''color'', \<lparr>old = styles (base_elements ! i) ''color'',
                                 new = styles (compare_elements ! k) ''color''\<rparr>)]
                   (tag (compare_elements ! k)) (el_text (compare_elements ! k))])"
      unfolding e
      using style_entry_eq[of "base_elements ! i" "compare_elements ! k"]
        style_entry_color_only[of "base_elements ! i" "compare_elements ! k"]
      by blast
  qed
  show ?thesis
    unfolding Let_def
    apply (rule conjI[OF compare_dom_elements_eq])
    apply (rule conjI[OF nth])
    apply (rule pair)
    done
qed

text \<open>The rule of C8 on the end-to-end scenario of the specification.\<close>

theorem style_change_rule_witness:
  "match_trace (enumerate 0 [h1_black]) [h1_red] = [Some 0]
   \<and> (0::nat) < length [h1_red]
   \<and> [h1_red] ! 0 = h1_red \<and> [h1_black] ! 0 = h1_black
   \<and> styles h1_black ''color'' \<noteq> styles h1_red ''color''
   \<and> entry_for [h1_black] h1_red (Some 0) =
       [StyleChange (rect h1_red)
          [(''color'', \<lparr>old = Some ''rgb(0,0,0)'', new = Some ''rgb(255,0,0)''\<rparr>)] ''H1'' ''Hello'']
   \<and> compare_dom_elements [h1_black] [h1_red] =
       Inr (concat (map2 (entry_for [h1_black]) [h1_red]
                      (match_trace (enumerate 0 [h1_black]) [h1_red])) @
            map removed_entry
              (filter (\<lambda>p. Some (fst p) \<notin> set (match_trace (enumerate 0 [h1_black]) [h1_red]))
                 (enumerate 0 [h1_black])))
   \<and> compare_dom_elements [h1_black] [h1_red] =
       Inr [StyleChange (rect h1_red)
              [(''color'', \<lparr>old = Some ''rgb(0,0,0)'', new = Some ''rgb(255,0,0)''\<rparr>)]
              ''H1'' ''Hello'']"
proof -
  have a: "compare_dom_elements [h1_black] [h1_red] =
       Inr (concat (map2 (entry_for [h1_black]) [h1_red]
                      (match_trace (enumerate 0 [h1_black]) [h1_red])) @
            map removed_entry
              (filter (\<lambda>p. Some (fst p) \<notin> set (match_trace (enumerate 0 [h1_black]) [h1_red]))
                 (enumerate 0 [h1_black])))"
    using style_change_rule[of "[h1_black]" "[h1_red]", unfolded Let_def]
    by (rule conjunct1)
  have m: "match_trace (enumerate 0 [h1_black]) [h1_red] = [Some 0]"
    by (simp add: match_trace.simps(2) differ_defs sample_defs)
  have e: "entry_for [h1_black] h1_red (Some 0) =
       [StyleChange (rect h1_red)
          [(''color'', \<lparr>old = Some ''rgb(0,0,0)'', new = Some ''rgb(255,0,0)''\<rparr>)] ''H1'' ''Hello'']"
    by (simp add: entry_for_def differ_defs sample_defs)
  have c: "styles h1_black ''color'' \<noteq> styles h1_red ''color''"
    by (simp add: sample_defs)
  have r: "compare_dom_elements [h1_black] [h1_red] =
       Inr [StyleChange (rect h1_red)
              [(''color'', \<lparr>old = Some ''rgb(0,0,0)'', new = Some ''rgb(255,0,0)''\<rparr>)]
              ''H1'' ''Hello'']"
    by (simp add: differ_defs sample_defs)
  show ?thesis
    using a m e c r by simp
qed









section \<open>Properties of the pixel differ\<close>

lemma pixel_body_in_range:
  assumes "fst xy < width img1" "snd xy < height img1" "fst xy < width img2" "snd xy < height img2"
  shows "pixel_body img1 img2 (d, n) xy =
           Inr (putpixel d xy (pixel_out (pixels img1 xy) (pixels img2 xy)),
                n + (if far img1 img2 xy then 1 else 0))"
  using assms
  by (cases "pixels img1 xy"; cases "pixels img2 xy")
     (simp add: pixel_body_def getpixel_def pixel_out_def far_def channel_distance_def Let_def)

lemma pixel_loop_in_range:
  assumes "\<forall>xy\<in>set cs. fst xy < width img1 \<and> snd xy < height img1
                       \<and> fst xy < width img2 \<and> snd xy < height img2"
  shows "pixel_loop img1 img2 cs (d, n) =
           Inr (d\<lparr>pixels := (\<lambda>xy. if xy \<in> set cs
                                  then pixel_out (pixels img1 xy) (pixels img2 xy)
                                  else pixels d xy)\<rparr>,
                n + int (length (filter (far img1 img2) cs)))"
  using assms
proof (induction cs arbitrary: d n)
  case Nil
  then show ?case by simp
next
  case (Cons xy cs)
  have body: "pixel_body img1 img2 (d, n) xy =
           Inr (putpixel d xy (pixel_out (pixels img1 xy) (pixels img2 xy)),
                n + (if far img1 img2 xy then 1 else 0))"
    using Cons.prems by (intro pixel_body_in_range) auto
  have rest: "\<forall>xy\<in>set cs. fst xy < width img1 \<and> snd xy < height img1
                       \<and> fst xy < width img2 \<and> snd xy < height img2"
    using Cons.prems by simp
  show ?case
    by (simp add: body Cons.IH[OF rest] putpixel_def fun_eq_iff)
qed

lemma set_scan_order: "set (scan_order w h) = {xy. fst xy < w \<and> snd xy < h}"
  by (auto simp: scan_order_def)

lemma length_scan_order: "length (scan_order w h) = w * h"
  by (simp add: scan_order_def length_concat comp_def sum_list_triv)

lemma resize_ok_size:
  assumes "resize_ok resize"
  shows "width (resize img wh) = fst wh" and "height (resize img wh) = snd wh"
  using assms unfolding resize_ok_def by blast+

text \<open>
  The pass over the pixels in closed form: every pixel of the canvas is red when the
  channel distance exceeds 15 and the faded base pixel otherwise, and the counter is the
  number of red pixels.
\<close>

lemma render_diff_eq:
  assumes "resize_ok resize"
  shows "render_diff resize img1 img2 =
     Inr (\<lparr>width = fst (target_size img1 img2), height = snd (target_size img1 img2),
           pixels = (\<lambda>xy. if fst xy < fst (target_size img1 img2) \<and> snd xy < snd (target_size img1 img2)
                          then pixel_out (pixels (resize img1 (target_size img1 img2)) xy)
                                         (pixels (resize img2 (target_size img1 img2)) xy)
                          else (0, 0, 0))\<rparr>,
          int (length (filter (far (resize img1 (target_size img1 img2))
                                   (resize img2 (target_size img1 img2)))
                         (scan_order (fst (target_size img1 img2)) (snd (target_size img1 img2))))),
          int (fst (target_size img1 img2) * snd (target_size img1 img2)))"
proof -
  let ?wh = "target_size img1 img2"
  have rng: "\<forall>xy\<in>set (scan_order (fst ?wh) (snd ?wh)).
      fst xy < width (resize img1 ?wh) \<and> snd xy < height (resize img1 ?wh)
    \<and> fst xy < width (resize img2 ?wh) \<and> snd xy < height (resize img2 ?wh)"
    by (simp add: resize_ok_size[OF assms] set_scan_order)
  show ?thesis
    unfolding render_diff_def Let_def pixel_loop_in_range[OF rng]
    by (simp add: new_image_def set_scan_order cong: if_cong)
qed

lemma channel_distance_sym: "channel_distance p q = channel_distance q p"
  by (simp add: channel_distance_def abs_minus_commute)

lemma far_sym: "far img1 img2 = far img2 img1"
  by (simp add: far_def fun_eq_iff channel_distance_sym)

lemma target_size_sym: "target_size img1 img2 = target_size img2 img1"
  by (simp add: target_size_def min.commute)

text \<open>
  C10. With a resize that returns images of the requested size, the score of the pixel
  differ (or its error) is the same for both orders of the two images.
\<close>

theorem score_symmetric:
  assumes "resize_ok resize"
  shows "pixel_diff_score resize img1 img2 = pixel_diff_score resize img2 img1"
  by (simp add: pixel_diff_score_def render_diff_eq[OF assms] target_size_sym[of img2 img1]
      far_sym[of "resize img2 (target_size img1 img2)"])

lemma resize_nearest_ok: "resize_ok resize_nearest"
  by (simp add: resize_ok_def resize_nearest_def)

text \<open>
  C6. With \<open>w\<close> the smaller of the two widths and \<open>h\<close> the smaller of the two
  heights, neither of which exceeds a dimension of either image, the differ hands
  \<open>(w, h)\<close> to \<^verbatim>\<open>resize\<close> for both images, compares the two resized images, each
  of size \<open>w\<close> by \<open>h\<close>, pixel by pixel, and produces a diff image of exactly that
  size over \<open>w * h\<close> pixels.
\<close>

theorem diff_canvas_size:
  assumes "resize_ok resize"
  shows "min (width img1) (width img2) \<le> width img1
       \<and> min (width img1) (width img2) \<le> width img2
       \<and> min (height img1) (height img2) \<le> height img1
       \<and> min (height img1) (height img2) \<le> height img2
       \<and> width (resize img1 (min (width img1) (width img2), min (height img1) (height img2))) =
           min (width img1) (width img2)
       \<and> height (resize img1 (min (width img1) (width img2), min (height img1) (height img2))) =
           min (height img1) (height img2)
       \<and> width (resize img2 (min (width img1) (width img2), min (height img1) (height img2))) =
           min (width img1) (width img2)
       \<and> height (resize img2 (min (width img1) (width img2), min (height img1) (height img2))) =
           min (height img1) (height img2)
       \<and> render_diff resize img1 img2 =
           Inr (\<lparr>width = min (width img1) (width img2),
                 height = min (height img1) (height img2),
                 pixels = (\<lambda>xy.
                   if fst xy < min (width img1) (width img2)
                      \<and> snd xy < min (height img1) (height img2)
                   then pixel_out
                     (pixels (resize img1
                        (min (width img1) (width img2), min (height img1) (height img2))) xy)
                     (pixels (resize img2
                        (min (width img1) (width img2), min (height img1) (height img2))) xy)
                   else (0, 0, 0))\<rparr>,
                int (length (filter
                  (far (resize img1 (min (width img1) (width img2), min (height img1) (height img2)))
                       (resize img2 (min (width img1) (width img2), min (height img1) (height img2))))
                  (scan_order (min (width img1) (width img2)) (min (height img1) (height img2))))),
                int (min (width img1) (width img2) * min (height img1) (height img2)))"
proof -
  have t: "target_size img1 img2 =
             (min (width img1) (width img2), min (height img1) (height img2))"
    by (simp add: target_size_def)
  show ?thesis
    using render_diff_eq[OF assms, of img1 img2, unfolded t fst_conv snd_conv]
    by (simp add: resize_ok_size[OF assms])
qed

lemma score_29: "diff_score 29 100 = Inr 28"
  by code_simp

lemma count_29:
  "length (filter (far (resize_nearest (solid 10 10 (0, 0, 0)) (10, 10))
                       (resize_nearest (first_white 10 10 29) (10, 10)))
             (scan_order 10 10)) = 29"
  by code_simp

lemma count_29_swapped:
  "length (filter (far (resize_nearest (first_white 10 10 29) (10, 10))
                       (resize_nearest (solid 10 10 (0, 0, 0)) (10, 10)))
             (scan_order 10 10)) = 29"
  by (simp add: far_sym[of "resize_nearest (first_white 10 10 29) (10, 10)"] count_29)

lemma size_10: "target_size (solid 10 10 (0, 0, 0)) (first_white 10 10 29) = (10, 10)"
  by (simp add: target_size_def solid_def first_white_def)

lemma score_10_29:
  "pixel_diff_score resize_nearest (solid 10 10 (0, 0, 0)) (first_white 10 10 29) = Inr 28"
  by (simp add: pixel_diff_score_def render_diff_eq[OF resize_nearest_ok] size_10 count_29 score_29)

text \<open>
  C2 at two 10 by 10 images that differ in 29 pixels: \<^verbatim>\<open>diff_count\<close> is 29 and
  \<^verbatim>\<open>total_pixels\<close> is 100, the stored score is 28, and the floor of the percentage
  is 29. The quotient \<^verbatim>\<open>29 / 100\<close> rounds to a float below \<open>0.29\<close>, its product with
  100 rounds to a float below 29, and \<^verbatim>\<open>int\<close> truncates.
\<close>

theorem score_below_percentage:
  "(\<exists>diff_img. render_diff resize_nearest (solid 10 10 (0, 0, 0)) (first_white 10 10 29) =
       Inr (diff_img, 29, 100))
   \<and> pixel_diff_score resize_nearest (solid 10 10 (0, 0, 0)) (first_white 10 10 29) = Inr 28
   \<and> \<lfloor>(29 :: rat) / 100 * 100\<rfloor> = 29"
proof -
  have "\<exists>diff_img. render_diff resize_nearest (solid 10 10 (0, 0, 0)) (first_white 10 10 29) =
       Inr (diff_img, 29, 100)"
    by (simp add: render_diff_eq[OF resize_nearest_ok] size_10 count_29)
  then show ?thesis
    using score_10_29 by simp
qed

text \<open>The symmetry of C10 on the two images above.\<close>

theorem score_symmetric_witness:
  "resize_ok resize_nearest
   \<and> pixel_diff_score resize_nearest (first_white 10 10 29) (solid 10 10 (0, 0, 0)) =
       pixel_diff_score resize_nearest (solid 10 10 (0, 0, 0)) (first_white 10 10 29)
   \<and> pixel_diff_score resize_nearest (first_white 10 10 29) (solid 10 10 (0, 0, 0)) = Inr 28"
  using resize_nearest_ok
    score_symmetric[OF resize_nearest_ok, of "first_white 10 10 29" "solid 10 10 (0, 0, 0)"]
    score_10_29
  by simp

lemma far_black_white:
  "far (resize_nearest (solid 100 200 (0, 0, 0)) (100, 180))
       (resize_nearest (solid 150 180 (255, 255, 255)) (100, 180)) = (\<lambda>xy. True)"
  by (simp add: far_def resize_nearest_def solid_def channel_distance_def fun_eq_iff)

text \<open>The canvas of C6 for a black 100 by 200 image against a white 150 by 180 image.\<close>

theorem diff_canvas_size_witness:
  "resize_ok resize_nearest
   \<and> (\<exists>diff_img.
         render_diff resize_nearest (solid 100 200 (0, 0, 0)) (solid 150 180 (255, 255, 255)) =
           Inr (diff_img, 18000, 18000)
       \<and> width diff_img = 100 \<and> height diff_img = 180
       \<and> pixels diff_img (99, 179) = (255, 0, 0)
       \<and> pixels diff_img (100, 179) = (0, 0, 0))"
proof -
  have w: "width (solid 100 200 (0, 0, 0)) = 100" "height (solid 100 200 (0, 0, 0)) = 200"
    "width (solid 150 180 (255, 255, 255)) = 150" "height (solid 150 180 (255, 255, 255)) = 180"
    by (simp_all add: solid_def)
  have p: "pixel_out (pixels (resize_nearest (solid 100 200 (0, 0, 0)) (100, 180)) (99, 179))
             (pixels (resize_nearest (solid 150 180 (255, 255, 255)) (100, 180)) (99, 179)) =
           (255, 0, 0)"
    by (simp add: pixel_out_def resize_nearest_def solid_def channel_distance_def)
  show ?thesis
    using resize_nearest_ok
      diff_canvas_size[OF resize_nearest_ok, of "solid 100 200 (0, 0, 0)" "solid 150 180 (255, 255, 255)"]
    by (simp add: w far_black_white length_scan_order p)
qed

section \<open>Properties of the extraction script\<close>

lemma extraction_loop_ok:
  assumes "\<forall>n\<in>set nodes. \<not> throws n"
  shows "extraction_loop tr sx sy nodes acc = Inr (acc @ concat (map (emitted tr sx sy) nodes))"
  using assms
proof (induction nodes arbitrary: acc)
  case Nil
  then show ?case by simp
next
  case (Cons n nodes)
  from Cons.prems obtain style r where
    s: "getComputedStyle n = Inr style" and r: "getBoundingClientRect n = Inr r"
    by (cases "getComputedStyle n"; cases "getBoundingClientRect n") (auto simp: throws_def)
  have rest: "\<forall>n\<in>set nodes. \<not> throws n"
    using Cons.prems by simp
  show ?case
    by (simp add: s r emitted_def Cons.IH[OF rest])
qed

lemma extraction_loop_throw:
  assumes "\<exists>n\<in>set nodes. throws n"
  shows "\<exists>e. extraction_loop tr sx sy nodes acc = Inl e"
  using assms
proof (induction nodes arbitrary: acc)
  case Nil
  then show ?case by simp
next
  case (Cons n nodes)
  show ?case
  proof (cases "throws n")
    case True
    then show ?thesis
      by (cases "getComputedStyle n"; cases "getBoundingClientRect n") (auto simp: throws_def)
  next
    case False
    then obtain style r where
      s: "getComputedStyle n = Inr style" and r: "getBoundingClientRect n = Inr r"
      by (cases "getComputedStyle n"; cases "getBoundingClientRect n") (auto simp: throws_def)
    have "\<exists>n\<in>set nodes. throws n"
      using Cons.prems False by auto
    then show ?thesis
      using Cons.IH by (simp add: s r)
  qed
qed

text \<open>
  C4, as amended. When no node of the walk throws, the script returns, in document order,
  the snapshot of every node that is not hidden and qualifies (has a direct text node
  that the runtime's \<^verbatim>\<open>trim\<close> leaves non-empty, or is an image, a button or an
  input). When some node throws, the script returns no list at all: the exception leaves
  the script.
\<close>

theorem extraction_all_or_nothing:
  "((\<forall>n\<in>set (body_nodes pg). \<not> throws n) \<longrightarrow>
      extraction_script pg =
        Inr (concat (map (emitted (page_trim pg) (scrollX pg) (scrollY pg)) (body_nodes pg))))
   \<and> ((\<exists>n\<in>set (body_nodes pg). throws n) \<longrightarrow> (\<exists>e. extraction_script pg = Inl e))"
  using extraction_loop_ok[of "body_nodes pg" "page_trim pg" "scrollX pg" "scrollY pg" "[]"]
    extraction_loop_throw[of "body_nodes pg" "page_trim pg" "scrollX pg" "scrollY pg" "[]"]
  by (simp add: extraction_script_def)

lemmas node_defs = heading_node_def button_node_def detached_node_def nbsp_node_def
  plain_style_def hasText_def js_trim_def js_space_def

text \<open>
  The amended C4 on a page with a heading, a block whose only text is a no-break space,
  and a button: the block is not emitted.
\<close>

theorem extraction_all_or_nothing_witness:
  "\<not> throws heading_node \<and> \<not> throws nbsp_node \<and> \<not> throws button_node
   \<and> emitted js_trim 0 0 nbsp_node = []
   \<and> length (emitted js_trim 0 0 heading_node) = 1
   \<and> length (emitted js_trim 0 0 button_node) = 1
   \<and> extraction_script (compare_page\<lparr>body_nodes := [heading_node, nbsp_node, button_node]\<rparr>) =
       Inr (emitted js_trim 0 0 heading_node @ emitted js_trim 0 0 button_node)"
proof -
  let ?pg = "compare_page\<lparr>body_nodes := [heading_node, nbsp_node, button_node]\<rparr>"
  have t: "\<not> throws heading_node" "\<not> throws nbsp_node" "\<not> throws button_node"
    by (simp_all add: throws_def node_defs)
  have h: "\<forall>n\<in>set (body_nodes ?pg). \<not> throws n"
    using t by simp
  have e: "emitted js_trim 0 0 nbsp_node = []"
    "length (emitted js_trim 0 0 heading_node) = 1"
    "length (emitted js_trim 0 0 button_node) = 1"
    by (simp_all add: emitted_def node_defs hidden_def qualifies_def)
  have p: "page_trim ?pg = js_trim" "scrollX ?pg = 0" "scrollY ?pg = 0"
    "body_nodes ?pg = [heading_node, nbsp_node, button_node]"
    by (simp_all add: compare_page_def)
  have "extraction_script ?pg =
          Inr (concat (map (emitted (page_trim ?pg) (scrollX ?pg) (scrollY ?pg)) (body_nodes ?pg)))"
    using h extraction_all_or_nothing[of ?pg] by blast
  then have "extraction_script ?pg =
          Inr (emitted js_trim 0 0 heading_node @ emitted js_trim 0 0 button_node)"
    unfolding p by (simp add: e(1))
  then show ?thesis
    using t e by blast
qed

text \<open>
  C4, as stated, fails: with a node between a heading and a button whose bounding
  rectangle cannot be read, the script returns an error and not the snapshots of the
  heading and the button.
\<close>

theorem one_throw_aborts_extraction:
  "throws detached_node \<and> \<not> throws heading_node \<and> \<not> throws button_node
   \<and> emitted js_trim 0 0 heading_node \<noteq> [] \<and> emitted js_trim 0 0 button_node \<noteq> []
   \<and> extraction_script
       (compare_page\<lparr>body_nodes := [heading_node, detached_node, button_node]\<rparr>) =
       Inl PlaywrightError"
  by (simp add: extraction_script_def throws_def emitted_def node_defs compare_page_def
      hidden_def qualifies_def)

section \<open>Properties of the comparison run\<close>

lemma open_image_upd:
  "p \<noteq> q \<Longrightarrow> open_image (w\<lparr>files := (files w)(p \<mapsto> c)\<rparr>) q = open_image w q"
  by (simp add: open_image_def)

lemma diff_try_upd:
  assumes "p \<noteq> base_path" "p \<noteq> compare_path" "p \<noteq> sf @ ''/diff.png''"
  shows "diff_try resize base_path compare_path sf (w\<lparr>files := (files w)(p \<mapsto> c)\<rparr>) =
           (case diff_try resize base_path compare_path sf w of
              (r, u) \<Rightarrow> (r, u\<lparr>files := (files u)(p \<mapsto> c)\<rparr>))"
  using assms
  by (auto simp: diff_try_def open_image_upd write_file_def Let_def fun_upd_twist
      split: sum.splits prod.splits write_result.splits)

lemma process_image_diff_upd:
  assumes "p \<noteq> base_path" "p \<noteq> compare_path" "p \<noteq> sf @ ''/diff.png''"
  shows "process_image_diff resize base_path compare_path sf sid bu cu
            (w\<lparr>files := (files w)(p \<mapsto> c)\<rparr>) =
         (process_image_diff resize base_path compare_path sf sid bu cu w)
            \<lparr>files := (files (process_image_diff resize base_path compare_path sf sid bu cu w))
                        (p \<mapsto> c)\<rparr>"
  by (auto simp: process_image_diff_def diff_try_upd[OF assms] split: sum.splits prod.splits option.splits)

lemma diff_try_files:
  assumes "p \<noteq> sf @ ''/diff.png''"
  shows "files (snd (diff_try resize base_path compare_path sf w)) p = files w p"
  using assms
  by (auto simp: diff_try_def write_file_def Let_def
      split: sum.splits prod.splits write_result.splits)

lemma process_image_diff_files:
  assumes "p \<noteq> sf @ ''/diff.png''"
  shows "files (process_image_diff resize base_path compare_path sf sid bu cu w) p = files w p"
  using diff_try_files[OF assms, of resize base_path compare_path w]
  by (auto simp: process_image_diff_def split: sum.splits prod.splits option.splits)

lemma compare_dom_elements_total: "\<exists>d. compare_dom_elements bs cs = Inr d"
  by (simp add: compare_dom_elements_eq)

lemma dom_diff_stage_eq:
  assumes "compare_dom_elements base_dom compare_dom = Inr d"
  shows "dom_diff_stage sf base_dom compare_dom w =
     (case write_outcome w (sf @ ''/diff_report.json'') of
        Written \<Rightarrow> w\<lparr>files := (files w)(sf @ ''/diff_report.json'' \<mapsto> Json d)\<rparr>
      | Refused \<Rightarrow> w
      | Torn \<Rightarrow> w\<lparr>files := (files w)(sf @ ''/diff_report.json'' \<mapsto> Garbage)\<rparr>)"
  using assms
  by (simp add: dom_diff_stage_def write_file_def split: write_result.splits)

text \<open>
  C3, as amended. When both captures succeed, the session rows and the result rows after
  the run are those that the pixel stage produces on the state left by the captures,
  whatever became of the DOM report. The differ itself always returns; after the run the
  report path holds the complete report when the write succeeded, is as it was when the
  write raised before opening the file, and holds an empty or half-written file when the
  write raised after opening it, whatever the pixel stage does.
\<close>

theorem dom_and_pixel_independent:
  assumes "capture browser base_url (''diffs/'' @ session_id @ ''/base.png'') w = (Inr base_dom, w1)"
    and "capture browser compare_url (''diffs/'' @ session_id @ ''/compare.png'') w1 =
           (Inr compare_dom, w2)"
  shows "sessions (compare_images_logic browser resize base_url compare_url session_id w) =
           sessions (process_image_diff resize (''diffs/'' @ session_id @ ''/base.png'')
             (''diffs/'' @ session_id @ ''/compare.png'') (''diffs/'' @ session_id) session_id
             base_url compare_url w2)
       \<and> results (compare_images_logic browser resize base_url compare_url session_id w) =
           results (process_image_diff resize (''diffs/'' @ session_id @ ''/base.png'')
             (''diffs/'' @ session_id @ ''/compare.png'') (''diffs/'' @ session_id) session_id
             base_url compare_url w2)
       \<and> (\<exists>d. compare_dom_elements base_dom compare_dom = Inr d
              \<and> files (compare_images_logic browser resize base_url compare_url session_id w)
                  (''diffs/'' @ session_id @ ''/diff_report.json'') =
                (case write_outcome w2 (''diffs/'' @ session_id @ ''/diff_report.json'') of
                   Written \<Rightarrow> Some (Json d)
                 | Refused \<Rightarrow> files w2 (''diffs/'' @ session_id @ ''/diff_report.json'')
                 | Torn \<Rightarrow> Some Garbage))"
proof -
  let ?sf = "''diffs/'' @ session_id"
  let ?bp = "?sf @ ''/base.png''"
  let ?cp = "?sf @ ''/compare.png''"
  let ?rp = "?sf @ ''/diff_report.json''"
  let ?pid = "process_image_diff resize ?bp ?cp ?sf session_id base_url compare_url"
  have run: "compare_images_logic browser resize base_url compare_url session_id w =
               ?pid (dom_diff_stage ?sf base_dom compare_dom w2)"
    using assms by (simp add: compare_images_logic_def Let_def)
  obtain d where d: "compare_dom_elements base_dom compare_dom = Inr d"
    using compare_dom_elements_total by blast
  have ne: "?rp \<noteq> ?bp" "?rp \<noteq> ?cp" "?rp \<noteq> ?sf @ ''/diff.png''"
    by simp_all
  have upd: "?pid (w2\<lparr>files := (files w2)(?rp \<mapsto> c)\<rparr>) =
               (?pid w2)\<lparr>files := (files (?pid w2))(?rp \<mapsto> c)\<rparr>" for c
    by (rule process_image_diff_upd[OF ne])
  have stage: "dom_diff_stage ?sf base_dom compare_dom w2 =
     (case write_outcome w2 ?rp of
        Written \<Rightarrow> w2\<lparr>files := (files w2)(?rp \<mapsto> Json d)\<rparr>
      | Refused \<Rightarrow> w2
      | Torn \<Rightarrow> w2\<lparr>files := (files w2)(?rp \<mapsto> Garbage)\<rparr>)"
    by (rule dom_diff_stage_eq[OF d])
  have keep: "files (?pid w2) ?rp = files w2 ?rp"
    by (rule process_image_diff_files[OF ne(3)])
  show ?thesis
  proof (cases "write_outcome w2 ?rp")
    case Written
    then have "compare_images_logic browser resize base_url compare_url session_id w =
                 (?pid w2)\<lparr>files := (files (?pid w2))(?rp \<mapsto> Json d)\<rparr>"
      using run stage upd by simp
    then show ?thesis
      using Written d by simp
  next
    case Refused
    then have "compare_images_logic browser resize base_url compare_url session_id w = ?pid w2"
      using run stage by simp
    then show ?thesis
      using Refused d keep by simp
  next
    case Torn
    then have "compare_images_logic browser resize base_url compare_url session_id w =
                 (?pid w2)\<lparr>files := (files (?pid w2))(?rp \<mapsto> Garbage)\<rparr>"
      using run stage upd by simp
    then show ?thesis
      using Torn d by simp
  qed
qed

lemma score_1_1: "diff_score 1 1 = Inr 100"
  by code_simp

lemma render_1_1:
  "\<exists>d. render_diff resize_nearest (solid 1 1 (0, 0, 0)) (solid 1 1 (255, 255, 255)) = Inr (d, 1, 1)"
  by (simp add: render_diff_eq[OF resize_nearest_ok])
     (simp add: target_size_def solid_def scan_order_def far_def resize_nearest_def channel_distance_def)

lemma process_image_diff_success:
  assumes "files w bp = Some (Png i1)" "files w cp = Some (Png i2)"
    and "render_diff resize i1 i2 = Inr (d, c, t)"
    and "write_outcome w (sf @ ''/diff.png'') = Written"
    and "diff_score c t = Inr s"
    and "sessions w sid = Some ses"
  shows "process_image_diff resize bp cp sf sid bu cu w =
           w\<lparr>files := (files w)(sf @ ''/diff.png'' \<mapsto> Png d),
             sessions := (sessions w)(sid \<mapsto> ses\<lparr>status := ''completed'', completed := 1\<rparr>),
             results := results w @
               [\<lparr>vr_session_id = sid, vr_base_url = bu, vr_compare_url = cu, vr_diff_score = s,
                 vr_base_image_path = bp, vr_compare_image_path = cp,
                 vr_diff_image_path = sf @ ''/diff.png''\<rparr>]\<rparr>"
  using assms
  by (simp add: process_image_diff_def diff_try_def open_image_def write_file_def Let_def)

lemma process_image_diff_save_fails:
  assumes "files w bp = Some (Png i1)" "files w cp = Some (Png i2)"
    and "render_diff resize i1 i2 = Inr (d, c, t)"
    and "write_outcome w (sf @ ''/diff.png'') = Refused"
    and "sessions w sid = Some ses"
  shows "process_image_diff resize bp cp sf sid bu cu w =
           w\<lparr>sessions := (sessions w)(sid \<mapsto> ses\<lparr>status := ''error''\<rparr>)\<rparr>"
  using assms
  by (simp add: process_image_diff_def diff_try_def open_image_def write_file_def Let_def)

lemma process_image_diff_decode_fails:
  assumes "files w bp = Some Garbage" and "sessions w sid = Some ses"
  shows "process_image_diff resize bp cp sf sid bu cu w =
           w\<lparr>sessions := (sessions w)(sid \<mapsto> ses\<lparr>status := ''error''\<rparr>)\<rparr>"
  using assms
  by (simp add: process_image_diff_def diff_try_def open_image_def)

lemma base_page_extract:
  "extraction_script base_page = Inr (emitted js_trim 0 0 heading_node)"
  using extraction_loop_ok[of "[heading_node]" js_trim 0 0 "[]"]
  by (simp add: extraction_script_def base_page_def throws_def heading_node_def)

lemma compare_page_extract:
  "extraction_script compare_page = Inr (emitted js_trim 0 0 heading_node @ emitted js_trim 0 0 button_node)"
  using extraction_loop_ok[of "[heading_node, button_node]" js_trim 0 0 "[]"]
  by (simp add: extraction_script_def compare_page_def throws_def heading_node_def button_node_def)

lemma fresh_world_sel:
  "write_outcome (fresh_world outcome) = outcome"
  "files (fresh_world outcome) = Map.empty"
  by (simp_all add: fresh_world_def)

lemma page_shots:
  "screenshot_png base_page = solid 1 1 (0, 0, 0)"
  "screenshot_png compare_page = solid 1 1 (255, 255, 255)"
  by (simp_all add: base_page_def compare_page_def)

lemma capture_base:
  assumes "outcome ''diffs/vis_1/base.png'' = Written"
  shows "capture good_browser ''http://a.test/'' (''diffs/'' @ ''vis_1'' @ ''/base.png'')
           (fresh_world outcome) =
         (Inr (emitted js_trim 0 0 heading_node), after_base outcome)"
  using assms
  by (simp add: capture_def good_browser_def write_file_def base_page_extract after_base_def
      fresh_world_sel page_shots)

lemma capture_compare:
  assumes "outcome ''diffs/vis_1/compare.png'' = Written"
  shows "capture good_browser ''http://b.test/'' (''diffs/'' @ ''vis_1'' @ ''/compare.png'')
           (after_base outcome) =
         (Inr (emitted js_trim 0 0 heading_node @ emitted js_trim 0 0 button_node), after_compare outcome)"
  using assms
  by (simp add: capture_def good_browser_def write_file_def compare_page_extract
      after_base_def after_compare_def fresh_world_sel page_shots)

lemma good_run:
  assumes "outcome ''diffs/vis_1/base.png'' = Written"
    and "outcome ''diffs/vis_1/compare.png'' = Written"
  shows "compare_images_logic good_browser resize ''http://a.test/'' ''http://b.test/'' ''vis_1''
           (fresh_world outcome) =
         process_image_diff resize ''diffs/vis_1/base.png'' ''diffs/vis_1/compare.png''
           ''diffs/vis_1'' ''vis_1'' ''http://a.test/'' ''http://b.test/''
           (dom_diff_stage ''diffs/vis_1'' (emitted js_trim 0 0 heading_node)
              (emitted js_trim 0 0 heading_node @ emitted js_trim 0 0 button_node) (after_compare outcome))"
  using assms capture_base[of outcome] capture_compare[of outcome]
  by (simp add: compare_images_logic_def Let_def)

text \<open>
  C3, as stated, fails in both directions. When the dump of the report fails after the
  file was opened, the run still stores a result row with score 100 and completes the
  session, next to a half-written \<^verbatim>\<open>diff_report.json\<close>. When the diff image cannot
  be saved, the session is marked \<^verbatim>\<open>"error"\<close> with no result row, and the complete
  \<^verbatim>\<open>diff_report.json\<close> stays on disk.
\<close>

theorem pixel_result_without_dom_report:
  "files (compare_images_logic good_browser resize_nearest ''http://a.test/'' ''http://b.test/''
            ''vis_1'' (fresh_world report_torn)) ''diffs/vis_1/diff_report.json'' = Some Garbage
   \<and> results (compare_images_logic good_browser resize_nearest ''http://a.test/'' ''http://b.test/''
            ''vis_1'' (fresh_world report_torn)) =
       [\<lparr>vr_session_id = ''vis_1'', vr_base_url = ''http://a.test/'',
         vr_compare_url = ''http://b.test/'', vr_diff_score = 100,
         vr_base_image_path = ''diffs/vis_1/base.png'',
         vr_compare_image_path = ''diffs/vis_1/compare.png'',
         vr_diff_image_path = ''diffs/vis_1/diff.png''\<rparr>]
   \<and> sessions (compare_images_logic good_browser resize_nearest ''http://a.test/''
            ''http://b.test/'' ''vis_1'' (fresh_world report_torn)) ''vis_1'' =
       Some \<lparr>status = ''completed'', completed = 1\<rparr>
   \<and> (\<exists>d. files (compare_images_logic good_browser resize_nearest ''http://a.test/''
              ''http://b.test/'' ''vis_1'' (fresh_world diff_png_refused))
              ''diffs/vis_1/diff_report.json'' = Some (Json d))
   \<and> results (compare_images_logic good_browser resize_nearest ''http://a.test/'' ''http://b.test/''
            ''vis_1'' (fresh_world diff_png_refused)) = []
   \<and> sessions (compare_images_logic good_browser resize_nearest ''http://a.test/''
            ''http://b.test/'' ''vis_1'' (fresh_world diff_png_refused)) ''vis_1'' =
       Some \<lparr>status = ''error'', completed = 0\<rparr>"
proof -
  obtain d where d: "render_diff resize_nearest (solid 1 1 (0, 0, 0)) (solid 1 1 (255, 255, 255)) =
      Inr (d, 1, 1)"
    using render_1_1 by blast
  obtain dd where dd: "compare_dom_elements (emitted js_trim 0 0 heading_node)
      (emitted js_trim 0 0 heading_node @ emitted js_trim 0 0 button_node) = Inr dd"
    using compare_dom_elements_total by blast
  let ?w = "(after_compare report_torn)
              \<lparr>files := (files (after_compare report_torn))
                          (''diffs/vis_1'' @ ''/diff_report.json'' \<mapsto> Garbage)\<rparr>"
  have a0: "compare_images_logic good_browser resize_nearest ''http://a.test/'' ''http://b.test/''
            ''vis_1'' (fresh_world report_torn) =
           process_image_diff resize_nearest ''diffs/vis_1/base.png'' ''diffs/vis_1/compare.png''
             ''diffs/vis_1'' ''vis_1'' ''http://a.test/'' ''http://b.test/''
             (dom_diff_stage ''diffs/vis_1'' (emitted js_trim 0 0 heading_node)
                (emitted js_trim 0 0 heading_node @ emitted js_trim 0 0 button_node)
                (after_compare report_torn))"
    by (rule good_run) (simp_all add: report_torn_def)
  have a1: "dom_diff_stage ''diffs/vis_1'' (emitted js_trim 0 0 heading_node)
                (emitted js_trim 0 0 heading_node @ emitted js_trim 0 0 button_node)
                (after_compare report_torn) = ?w"
    by (simp add: dom_diff_stage_eq[OF dd])
       (simp add: after_compare_def fresh_world_def report_torn_def)
  have a: "compare_images_logic good_browser resize_nearest ''http://a.test/'' ''http://b.test/''
            ''vis_1'' (fresh_world report_torn) =
           process_image_diff resize_nearest ''diffs/vis_1/base.png'' ''diffs/vis_1/compare.png''
             ''diffs/vis_1'' ''vis_1'' ''http://a.test/'' ''http://b.test/'' ?w"
    using a0 a1 by simp
  have a': "process_image_diff resize_nearest ''diffs/vis_1/base.png'' ''diffs/vis_1/compare.png''
             ''diffs/vis_1'' ''vis_1'' ''http://a.test/'' ''http://b.test/'' ?w =
        ?w\<lparr>files := (files ?w)(''diffs/vis_1'' @ ''/diff.png'' \<mapsto> Png d),
             sessions := (sessions ?w)(''vis_1'' \<mapsto>
                \<lparr>status = ''running'', completed = 0\<rparr>\<lparr>status := ''completed'', completed := 1\<rparr>),
             results := results ?w @
               [\<lparr>vr_session_id = ''vis_1'', vr_base_url = ''http://a.test/'',
                 vr_compare_url = ''http://b.test/'', vr_diff_score = 100,
                 vr_base_image_path = ''diffs/vis_1/base.png'',
                 vr_compare_image_path = ''diffs/vis_1/compare.png'',
                 vr_diff_image_path = ''diffs/vis_1'' @ ''/diff.png''\<rparr>]\<rparr>"
    by (rule process_image_diff_success[OF _ _ d _ score_1_1])
       (simp_all add: after_compare_def fresh_world_def report_torn_def)
  let ?v = "(after_compare diff_png_refused)
              \<lparr>files := (files (after_compare diff_png_refused))
                          (''diffs/vis_1'' @ ''/diff_report.json'' \<mapsto> Json dd)\<rparr>"
  have b0: "compare_images_logic good_browser resize_nearest ''http://a.test/'' ''http://b.test/''
            ''vis_1'' (fresh_world diff_png_refused) =
           process_image_diff resize_nearest ''diffs/vis_1/base.png'' ''diffs/vis_1/compare.png''
             ''diffs/vis_1'' ''vis_1'' ''http://a.test/'' ''http://b.test/''
             (dom_diff_stage ''diffs/vis_1'' (emitted js_trim 0 0 heading_node)
                (emitted js_trim 0 0 heading_node @ emitted js_trim 0 0 button_node)
                (after_compare diff_png_refused))"
    by (rule good_run) (simp_all add: diff_png_refused_def)
  have b1: "dom_diff_stage ''diffs/vis_1'' (emitted js_trim 0 0 heading_node)
                (emitted js_trim 0 0 heading_node @ emitted js_trim 0 0 button_node)
                (after_compare diff_png_refused) = ?v"
    by (simp add: dom_diff_stage_eq[OF dd])
       (simp add: after_compare_def fresh_world_def diff_png_refused_def)
  have b: "compare_images_logic good_browser resize_nearest ''http://a.test/'' ''http://b.test/''
            ''vis_1'' (fresh_world diff_png_refused) =
           process_image_diff resize_nearest ''diffs/vis_1/base.png'' ''diffs/vis_1/compare.png''
             ''diffs/vis_1'' ''vis_1'' ''http://a.test/'' ''http://b.test/'' ?v"
    using b0 b1 by simp
  have b': "process_image_diff resize_nearest ''diffs/vis_1/base.png'' ''diffs/vis_1/compare.png''
             ''diffs/vis_1'' ''vis_1'' ''http://a.test/'' ''http://b.test/'' ?v =
        ?v\<lparr>sessions := (sessions ?v)(''vis_1'' \<mapsto>
                \<lparr>status = ''running'', completed = 0\<rparr>\<lparr>status := ''error''\<rparr>)\<rparr>"
    by (rule process_image_diff_save_fails[OF _ _ d])
       (simp_all add: after_compare_def fresh_world_def diff_png_refused_def)
  show ?thesis
    unfolding a a' b b'
    by (simp add: after_compare_def fresh_world_def)
qed

text \<open>
  C5 at a failed navigation and at a failed extraction: the run ends with the session
  still \<^verbatim>\<open>"running"\<close> and no result row. For contrast, an image that cannot be decoded
  in \<^verbatim>\<open>process_image_diff\<close> does mark the session \<^verbatim>\<open>"error"\<close>.
\<close>

theorem capture_failure_not_marked:
  "sessions (compare_images_logic down_browser resize_nearest ''http://a.test/'' ''http://b.test/''
              ''vis_1'' (fresh_world all_written)) ''vis_1'' =
     Some \<lparr>status = ''running'', completed = 0\<rparr>
   \<and> results (compare_images_logic down_browser resize_nearest ''http://a.test/''
              ''http://b.test/'' ''vis_1'' (fresh_world all_written)) = []
   \<and> sessions (compare_images_logic flaky_browser resize_nearest ''http://a.test/''
              ''http://b.test/'' ''vis_1'' (fresh_world all_written)) ''vis_1'' =
     Some \<lparr>status = ''running'', completed = 0\<rparr>
   \<and> results (compare_images_logic flaky_browser resize_nearest ''http://a.test/''
              ''http://b.test/'' ''vis_1'' (fresh_world all_written)) = []
   \<and> sessions (process_image_diff resize_nearest ''diffs/vis_1/base.png''
              ''diffs/vis_1/compare.png'' ''diffs/vis_1'' ''vis_1'' ''http://a.test/''
              ''http://b.test/''
              ((fresh_world all_written)\<lparr>files := [''diffs/vis_1/base.png'' \<mapsto> Garbage]\<rparr>))
        ''vis_1'' =
     Some \<lparr>status = ''error'', completed = 0\<rparr>
   \<and> results (process_image_diff resize_nearest ''diffs/vis_1/base.png''
              ''diffs/vis_1/compare.png'' ''diffs/vis_1'' ''vis_1'' ''http://a.test/''
              ''http://b.test/''
              ((fresh_world all_written)\<lparr>files := [''diffs/vis_1/base.png'' \<mapsto> Garbage]\<rparr>)) = []"
proof -
  have down: "compare_images_logic down_browser resize_nearest ''http://a.test/'' ''http://b.test/''
              ''vis_1'' (fresh_world all_written) = fresh_world all_written"
    by (simp add: compare_images_logic_def capture_def down_browser_def Let_def)
  have bad: "extraction_script
       (compare_page\<lparr>body_nodes := [heading_node, detached_node, button_node]\<rparr>) =
       Inl PlaywrightError"
    by (simp add: extraction_script_def node_defs compare_page_def hidden_def qualifies_def)
  have flaky: "compare_images_logic flaky_browser resize_nearest ''http://a.test/'' ''http://b.test/''
              ''vis_1'' (fresh_world all_written) =
        (fresh_world all_written)\<lparr>files :=
           [''diffs/vis_1/base.png'' \<mapsto> Png (solid 1 1 (0, 0, 0)),
            ''diffs/vis_1/compare.png'' \<mapsto> Png (solid 1 1 (255, 255, 255))]\<rparr>"
    by (simp add: compare_images_logic_def capture_def flaky_browser_def write_file_def
        base_page_extract bad Let_def fresh_world_sel page_shots all_written_def)
  have dec: "process_image_diff resize_nearest ''diffs/vis_1/base.png''
              ''diffs/vis_1/compare.png'' ''diffs/vis_1'' ''vis_1'' ''http://a.test/''
              ''http://b.test/''
              ((fresh_world all_written)\<lparr>files := [''diffs/vis_1/base.png'' \<mapsto> Garbage]\<rparr>) =
        ((fresh_world all_written)\<lparr>files := [''diffs/vis_1/base.png'' \<mapsto> Garbage]\<rparr>)
          \<lparr>sessions := [''vis_1'' \<mapsto> \<lparr>status = ''error'', completed = 0\<rparr>]\<rparr>"
    by (simp add: process_image_diff_def diff_try_def open_image_def fresh_world_def)
  show ?thesis
    unfolding down flaky dec by (simp add: fresh_world_def)
qed

text \<open>The amended C3 on the sample run with a report torn by a failed dump.\<close>

theorem dom_and_pixel_independent_witness:
  "capture good_browser ''http://a.test/'' (''diffs/'' @ ''vis_1'' @ ''/base.png'')
     (fresh_world report_torn) =
     (Inr (emitted js_trim 0 0 heading_node), after_base report_torn)
   \<and> capture good_browser ''http://b.test/'' (''diffs/'' @ ''vis_1'' @ ''/compare.png'')
       (after_base report_torn) =
     (Inr (emitted js_trim 0 0 heading_node @ emitted js_trim 0 0 button_node),
      after_compare report_torn)
   \<and> write_outcome (after_compare report_torn) (''diffs/'' @ ''vis_1'' @ ''/diff_report.json'') = Torn
   \<and> results (compare_images_logic good_browser resize_nearest ''http://a.test/'' ''http://b.test/''
        ''vis_1'' (fresh_world report_torn)) =
     results (process_image_diff resize_nearest (''diffs/'' @ ''vis_1'' @ ''/base.png'')
        (''diffs/'' @ ''vis_1'' @ ''/compare.png'') (''diffs/'' @ ''vis_1'') ''vis_1''
        ''http://a.test/'' ''http://b.test/'' (after_compare report_torn))
   \<and> files (compare_images_logic good_browser resize_nearest ''http://a.test/'' ''http://b.test/''
        ''vis_1'' (fresh_world report_torn)) (''diffs/'' @ ''vis_1'' @ ''/diff_report.json'') =
     Some Garbage"
proof -
  have c1: "capture good_browser ''http://a.test/'' (''diffs/'' @ ''vis_1'' @ ''/base.png'')
     (fresh_world report_torn) =
     (Inr (emitted js_trim 0 0 heading_node), after_base report_torn)"
    by (rule capture_base) (simp add: report_torn_def)
  have c2: "capture good_browser ''http://b.test/'' (''diffs/'' @ ''vis_1'' @ ''/compare.png'')
       (after_base report_torn) =
     (Inr (emitted js_trim 0 0 heading_node @ emitted js_trim 0 0 button_node),
      after_compare report_torn)"
    by (rule capture_compare) (simp add: report_torn_def)
  have t: "write_outcome (after_compare report_torn)
             (''diffs/'' @ ''vis_1'' @ ''/diff_report.json'') = Torn"
    by (simp add: after_compare_def fresh_world_def report_torn_def)
  show ?thesis
    using c1 c2 t dom_and_pixel_independent[OF c1 c2, of resize_nearest]
    by (auto simp only: t write_result.case)
qed

end
